theory Spec2Isabelle
  imports Main "HOL-Library.AList"
begin

section \<open>Strings, numbers and errors of the Python program\<close>

text \<open>
  The program is \<^verbatim>\<open>generate.py\<close>. A Python \<^verbatim>\<open>str\<close> is modelled as a \<open>string\<close>
  whose characters are the code points below 256; a \<^verbatim>\<open>dict\<close> is an association list
  in insertion order, read with \<open>map_of\<close> and written with \<open>AList.update\<close> (an existing
  key keeps its position, a new key goes to the end, as in Python). An exception is a
  value of type \<open>error\<close>, returned on the left of a sum.
\<close>

datatype error =
    IOError string
  | GenericException string
  | TypeError
  | ValueError
  | KeyError string

text \<open>The backslash cannot be written inside a string literal.\<close>

definition backslash :: char where
  "backslash = CHR 0x5C"

text \<open>\<^verbatim>\<open>str.isspace\<close> on the code points below 256.\<close>

definition is_space :: "char \<Rightarrow> bool" where
  "is_space c = (c \<in> set [CHR 0x09, CHR 0x0A, CHR 0x0B, CHR 0x0C, CHR 0x0D,
                           CHR 0x1C, CHR 0x1D, CHR 0x1E, CHR 0x1F, CHR 0x20,
                           CHR 0x85, CHR 0xA0])"

text \<open>\<^verbatim>\<open>s.strip()\<close>: whitespace is removed at both ends.\<close>

definition strip :: "string \<Rightarrow> string" where
  "strip s = rev (dropWhile is_space (rev (dropWhile is_space s)))"

text \<open>\<^verbatim>\<open>s.startswith(p)\<close> and \<^verbatim>\<open>s.endswith(p)\<close>.\<close>

definition startswith :: "string \<Rightarrow> string \<Rightarrow> bool" where
  "startswith s p = (take (length p) s = p)"

definition endswith :: "string \<Rightarrow> string \<Rightarrow> bool" where
  "endswith s p = (length p \<le> length s \<and> drop (length s - length p) s = p)"

text \<open>\<^verbatim>\<open>str(n)\<close> for a non-negative integer: its decimal digits.\<close>

definition digit_char :: "nat \<Rightarrow> char" where
  "digit_char d = char_of (48 + d)"

function str_nat :: "nat \<Rightarrow> string" where
  "str_nat n = (if n < 10 then [digit_char n] else str_nat (n div 10) @ [digit_char (n mod 10)])"
  by pat_completeness auto
termination
  by (relation "measure (\<lambda>n. n)") auto

declare str_nat.simps [simp del]

text \<open>
  \<^verbatim>\<open>int(s, 16)\<close> on a string of the digits \<^verbatim>\<open>0123456789ABCDEF\<close>, the only strings the
  parser passes to it.
\<close>

definition hex_digits :: string where
  "hex_digits = ''0123456789ABCDEF''"

fun index_of :: "char \<Rightarrow> string \<Rightarrow> nat" where
  "index_of c [] = 0"
| "index_of c (d # ds) = (if c = d then 0 else Suc (index_of c ds))"

definition int16 :: "string \<Rightarrow> nat" where
  "int16 s = foldl (\<lambda>a c. 16 * a + index_of c hex_digits) 0 s"

section \<open>split\_property\_line\<close>

text \<open>
  The local variables of \<^verbatim>\<open>split_property_line\<close>. \<^verbatim>\<open>in_key\<close> is initialised to
  \<^verbatim>\<open>True\<close> and read once; no statement of the function assigns it again.
\<close>

record scanner =
  key :: string
  current_line :: string
  in_key :: bool
  escaped :: bool
  hex_code :: bool
  hex_string :: string

definition scanner_init :: scanner where
  "scanner_init = \<lparr>key = [], current_line = [], in_key = True, escaped = False,
                    hex_code = False, hex_string = []\<rparr>"

text \<open>
  Lines 88 to 101: what the loop body does with a character that the two mode
  branches above did not consume. \<open>None\<close> is \<^verbatim>\<open>return None\<close>.
\<close>

definition scan_plain :: "scanner \<Rightarrow> char \<Rightarrow> scanner option" where
  "scan_plain s c =
     (if c = backslash then Some (s\<lparr>escaped := True\<rparr>)
      else if c \<in> set '':='' then
        (if \<not> in_key s then None
         else Some (s\<lparr>key := strip (current_line s), current_line := []\<rparr>))
      else if escaped s then
        Some (s\<lparr>current_line := current_line s @ [backslash] @ [c], escaped := False\<rparr>)
      else Some (s\<lparr>current_line := current_line s @ [c]\<rparr>))"

text \<open>One iteration of the loop over the characters (lines 66 to 101).\<close>

definition scan_char :: "scanner \<Rightarrow> char \<Rightarrow> scanner option" where
  "scan_char s c =
     (if hex_code s then
        (if length (hex_string s) = 4 then
           scan_plain (s\<lparr>current_line := current_line s @ str_nat (int16 (hex_string s)),
                          hex_code := False, hex_string := []\<rparr>) c
         else if c \<notin> set hex_digits then None
         else Some (s\<lparr>hex_string := hex_string s @ [c]\<rparr>))
      else if escaped s then
        (if c \<in> set '':='' then
           Some (s\<lparr>escaped := False, current_line := current_line s @ [c]\<rparr>)
         else if c = CHR ''u'' then
           Some (s\<lparr>hex_code := True, hex_string := [], escaped := False\<rparr>)
         else scan_plain s c)
      else scan_plain s c)"

fun scan :: "scanner \<Rightarrow> string \<Rightarrow> scanner option" where
  "scan s [] = Some s"
| "scan s (c # cs) = (case scan_char s c of None \<Rightarrow> None | Some s' \<Rightarrow> scan s' cs)"

definition split_property_line :: "string \<Rightarrow> (string \<times> string) option" where
  "split_property_line line =
     (case scan scanner_init line of
        None \<Rightarrow> None
      | Some s \<Rightarrow> if key s = [] then None else Some (key s, strip (current_line s)))"

section \<open>parse\_property\_file\<close>

text \<open>
  The local variables of \<^verbatim>\<open>parse_property_file\<close>, and one iteration of its loop over
  the physical lines (lines 117 to 139).
\<close>

record reader =
  is_continuing :: bool
  line_buffer :: string
  values_dict :: "(string \<times> string) list"

definition reader_init :: reader where
  "reader_init = \<lparr>is_continuing = False, line_buffer = [], values_dict = []\<rparr>"

definition read_line :: "reader \<Rightarrow> string \<Rightarrow> error + reader" where
  "read_line r source_line =
     (let line = strip source_line in
      if line = [] then Inr r
      else if \<not> is_continuing r \<and> (startswith line ''#'' \<or> startswith line ''!'') then Inr r
      else if endswith line [backslash] then
        Inr (r\<lparr>is_continuing := True, line_buffer := line_buffer r @ '' '' @ line\<rparr>)
      else
        (let line' = line_buffer r @ '' '' @ line in
         case split_property_line line' of
           None \<Rightarrow> Inl (GenericException (''Invalid property found in'' @ line'))
         | Some (k, v) \<Rightarrow>
             Inr (r\<lparr>is_continuing := False, line_buffer := [],
                    values_dict := AList.update k v (values_dict r)\<rparr>)))"

fun read_lines :: "reader \<Rightarrow> string list \<Rightarrow> error + reader" where
  "read_lines r [] = Inr r"
| "read_lines r (l # ls) = (case read_line r l of Inl e \<Rightarrow> Inl e | Inr r' \<Rightarrow> read_lines r' ls)"

text \<open>
  The directory tree that \<^verbatim>\<open>os.walk\<close> finds: a directory lists its entries by name in
  the order of \<^verbatim>\<open>os.scandir\<close>; an entry that is not a directory is a file with its
  content, or a file that cannot be opened for reading.
\<close>

datatype node = File string | Unreadable | Dir "(string \<times> node) list"

text \<open>
  What the program sees of the file system: \<open>path_exists\<close> is \<^verbatim>\<open>os.path.exists\<close>,
  \<open>listdir\<close> is \<^verbatim>\<open>os.listdir\<close> and \<open>readlines\<close> is \<^verbatim>\<open>open(name, 'r')\<close> followed by
  \<^verbatim>\<open>handle.readlines()\<close>; the last two are \<open>None\<close> where the call raises. \<open>tree_at\<close>
  is the tree that \<^verbatim>\<open>os.walk\<close> finds at a path.
\<close>

record filesystem =
  path_exists :: "string \<Rightarrow> bool"
  listdir :: "string \<Rightarrow> string list option"
  readlines :: "string \<Rightarrow> string list option"
  tree_at :: "string \<Rightarrow> node"

definition parse_property_file :: "filesystem \<Rightarrow> string \<Rightarrow> error + (string \<times> string) list" where
  "parse_property_file fs name =
     (case readlines fs name of
        None \<Rightarrow> Inl (IOError name)
      | Some ls \<Rightarrow>
          (case read_lines reader_init ls of Inl e \<Rightarrow> Inl e | Inr r \<Rightarrow> Inr (values_dict r)))"

section \<open>collect\_android\_sources\<close>

text \<open>\<^verbatim>\<open>os.path.join\<close> of two components (POSIX).\<close>

definition path_join :: "string \<Rightarrow> string \<Rightarrow> string" where
  "path_join a b =
     (if startswith b ''/'' then b
      else if a = [] \<or> endswith a ''/'' then a @ b
      else a @ ''/'' @ b)"

text \<open>
  \<^verbatim>\<open>str.isdigit\<close> on the code points below 256: the ten ASCII digits and the
  superscripts one, two and three. \<^verbatim>\<open>int(s)\<close> accepts only the ASCII digits among
  them and raises \<^verbatim>\<open>ValueError\<close> on the superscripts.
\<close>

definition isdigit :: "string \<Rightarrow> bool" where
  "isdigit s = (s \<noteq> [] \<and> list_all (\<lambda>c. c \<in> set (''0123456789'' @ [CHR 0xB2, CHR 0xB3, CHR 0xB9])) s)"

definition py_int :: "string \<Rightarrow> error + nat" where
  "py_int s =
     (if list_all (\<lambda>c. c \<in> set ''0123456789'') s
      then Inr (foldl (\<lambda>a c. 10 * a + index_of c ''0123456789'') 0 s)
      else Inl ValueError)"

text \<open>
  One iteration of the loop over \<^verbatim>\<open>os.listdir(sources)\<close> (lines 153 to 165). The
  catalog \<^verbatim>\<open>source_directories\<close> maps an API level to a directory. On a level that
  is already a key, line 162 evaluates \<^verbatim>\<open>'Duplicated API level: ' + api_level\<close> with
  \<^verbatim>\<open>api_level\<close> an \<^verbatim>\<open>int\<close>: the concatenation raises \<^verbatim>\<open>TypeError\<close> before the
  \<^verbatim>\<open>Exception\<close> is built.
\<close>

definition collect_directory ::
  "filesystem \<Rightarrow> string \<Rightarrow> (nat \<times> string) list \<Rightarrow> string \<Rightarrow> error + (nat \<times> string) list" where
  "collect_directory fs sources source_directories directory =
     (let source_directory = path_join sources directory;
          properties_file = path_join source_directory ''source.properties'' in
      case parse_property_file fs properties_file of
        Inl e \<Rightarrow> Inl e
      | Inr properties \<Rightarrow>
          (case map_of properties ''AndroidVersion.ApiLevel'' of
             None \<Rightarrow> Inr source_directories
           | Some api_level \<Rightarrow>
               if api_level = [] \<or> \<not> isdigit api_level then Inr source_directories
               else
                 (case py_int api_level of
                    Inl e \<Rightarrow> Inl e
                  | Inr n \<Rightarrow>
                      if n \<in> set (map fst source_directories) then Inl TypeError
                      else Inr (AList.update n source_directory source_directories))))"

fun collect_loop ::
  "filesystem \<Rightarrow> string \<Rightarrow> (nat \<times> string) list \<Rightarrow> string list \<Rightarrow> error + (nat \<times> string) list" where
  "collect_loop fs sources source_directories [] = Inr source_directories"
| "collect_loop fs sources source_directories (d # ds) =
     (case collect_directory fs sources source_directories d of
        Inl e \<Rightarrow> Inl e
      | Inr source_directories' \<Rightarrow> collect_loop fs sources source_directories' ds)"

definition collect_android_sources :: "filesystem \<Rightarrow> string \<Rightarrow> error + (nat \<times> string) list" where
  "collect_android_sources fs base_directory =
     (let sources = path_join base_directory ''sources'' in
      if \<not> path_exists fs sources then Inl (GenericException (sources @ '' does not exist!''))
      else
        (case listdir fs sources of
           None \<Rightarrow> Inl (IOError sources)
         | Some ds \<Rightarrow> collect_loop fs sources [] ds))"

section \<open>preprocess\<close>

text \<open>The values of the dictionary \<^verbatim>\<open>VARS\<close> are integers and strings; \<open>str_value\<close> is \<^verbatim>\<open>str\<close>.\<close>

datatype pyval = PyInt int | PyStr string

definition str_int :: "int \<Rightarrow> string" where
  "str_int i = (if i < 0 then ''-'' @ str_nat (nat (- i)) else str_nat (nat i))"

fun str_value :: "pyval \<Rightarrow> string" where
  "str_value (PyInt i) = str_int i"
| "str_value (PyStr s) = s"

text \<open>
  \<^verbatim>\<open>s.find(sub)\<close>, the lowest index at which \<open>sub\<close> occurs, and \<^verbatim>\<open>s.index(sub, start)\<close>,
  which is \<open>None\<close> where Python raises \<^verbatim>\<open>ValueError\<close>.
\<close>

fun str_find :: "string \<Rightarrow> string \<Rightarrow> nat option" where
  "str_find [] sub = (if sub = [] then Some 0 else None)"
| "str_find (c # cs) sub =
     (if startswith (c # cs) sub then Some 0 else map_option Suc (str_find cs sub))"

definition str_index :: "string \<Rightarrow> string \<Rightarrow> nat \<Rightarrow> nat option" where
  "str_index s sub start =
     (if length s < start then None
      else map_option (\<lambda>i. i + start) (str_find (drop start s) sub))"

text \<open>
  The \<^verbatim>\<open>while\<close> loop of lines 195 to 202 on one line of the template. The loop has no
  bound, so the result is an option: \<open>None\<close> is a loop that runs forever.
\<close>

partial_function (option) preprocess_line ::
  "(string \<times> pyval) list \<Rightarrow> string \<Rightarrow> (error + string) option" where
  "preprocess_line variables line =
     (case str_find line ''%%'' of
        None \<Rightarrow> Some (Inr line)
      | Some start_marker \<Rightarrow>
          (case str_index line ''%%'' (start_marker + 2) of
             None \<Rightarrow> Some (Inl ValueError)
           | Some end_marker \<Rightarrow>
               (case map_of variables
                       (take (end_marker - (start_marker + 2)) (drop (start_marker + 2) line)) of
                  None \<Rightarrow> preprocess_line variables line
                | Some v \<Rightarrow>
                    preprocess_line variables
                      (take start_marker line @ str_value v @ drop (end_marker + 2) line))))"

declare preprocess_line.simps [code]

fun preprocess_lines ::
  "(string \<times> pyval) list \<Rightarrow> string \<Rightarrow> string list \<Rightarrow> (error + string) option" where
  "preprocess_lines variables output [] = Some (Inr output)"
| "preprocess_lines variables output (l # ls) =
     (case preprocess_line variables l of
        None \<Rightarrow> None
      | Some (Inl e) \<Rightarrow> Some (Inl e)
      | Some (Inr l') \<Rightarrow> preprocess_lines variables (output @ l') ls)"

definition preprocess ::
  "filesystem \<Rightarrow> string \<Rightarrow> (string \<times> pyval) list \<Rightarrow> (error + string) option" where
  "preprocess fs source_file variables =
     (case readlines fs source_file of
        None \<Rightarrow> Some (Inl (IOError source_file))
      | Some ls \<Rightarrow> preprocess_lines variables [] ls)"

section \<open>package\_sdk\_source\<close>

text \<open>
  \<^verbatim>\<open>os.walk(directory)\<close>, top down: for every directory one triple of its path, the
  names of its subdirectories and its other entries, followed by the walks of the
  subdirectories in turn. The path is kept as the list of names below \<^verbatim>\<open>directory\<close>;
  the walk of a path that is not a directory is empty.
\<close>

type_synonym walk_item = "string list \<times> string list \<times> (string \<times> node) list"

fun is_dir :: "node \<Rightarrow> bool" where
  "is_dir (Dir es) = True"
| "is_dir (File c) = False"
| "is_dir Unreadable = False"

fun walk :: "string list \<Rightarrow> node \<Rightarrow> walk_item list"
  and walk_dirs :: "string list \<Rightarrow> (string \<times> node) list \<Rightarrow> walk_item list" where
  "walk root (Dir es) =
     (root, map fst (filter (\<lambda>e. is_dir (snd e)) es), filter (\<lambda>e. \<not> is_dir (snd e)) es)
       # walk_dirs root es"
| "walk root (File c) = []"
| "walk root Unreadable = []"
| "walk_dirs root [] = []"
| "walk_dirs root ((n, Dir ds) # es) = walk (root @ [n]) (Dir ds) @ walk_dirs root es"
| "walk_dirs root ((n, File c) # es) = walk_dirs root es"
| "walk_dirs root ((n, Unreadable) # es) = walk_dirs root es"

text \<open>
  \<^verbatim>\<open>os.path.relpath(os.path.join(root, file_name), root_directory)\<close>, where \<^verbatim>\<open>root\<close> comes
  from the walk of \<^verbatim>\<open>directory\<close> and \<^verbatim>\<open>root_directory\<close> is its absolute path: the names
  below \<^verbatim>\<open>directory\<close>, joined by the separator.
\<close>

fun relpath :: "string list \<Rightarrow> string" where
  "relpath [] = ''.''"
| "relpath [c] = c"
| "relpath (c # d # cs) = c @ ''/'' @ relpath (d # cs)"

text \<open>
  The members of a ZIP archive in the order they were written, each a name and a
  content. The inner loop of lines 180 to 187 writes the files of one directory;
  \<^verbatim>\<open>output.write\<close> raises on a file that cannot be read.
\<close>

type_synonym members = "(string \<times> string) list"

fun write_files :: "string list \<Rightarrow> (string \<times> node) list \<Rightarrow> members \<Rightarrow> error + members" where
  "write_files root [] output = Inr output"
| "write_files root ((file_name, t) # files) output =
     (let target_file = relpath (root @ [file_name]) in
      if target_file = ''source.properties'' then write_files root files output
      else
        (case t of
           File c \<Rightarrow> write_files root files (output @ [(target_file, c)])
         | _ \<Rightarrow> Inl (IOError target_file)))"

fun write_walk :: "walk_item list \<Rightarrow> members \<Rightarrow> error + members" where
  "write_walk [] output = Inr output"
| "write_walk ((root, directories, files) # items) output =
     (case write_files root files output of
        Inl e \<Rightarrow> Inl e
      | Inr output' \<Rightarrow> write_walk items output')"

definition package_sdk_source :: "node \<Rightarrow> error + members" where
  "package_sdk_source directory = write_walk (walk [] directory) []"

text \<open>
  \<^verbatim>\<open>repack\<close> (lines 334 to 349) is the same walk without the test of line 183.
\<close>

fun repack_files :: "string list \<Rightarrow> (string \<times> node) list \<Rightarrow> members \<Rightarrow> error + members" where
  "repack_files root [] output = Inr output"
| "repack_files root ((file_name, t) # files) output =
     (let target_file = relpath (root @ [file_name]) in
      case t of
        File c \<Rightarrow> repack_files root files (output @ [(target_file, c)])
      | _ \<Rightarrow> Inl (IOError target_file))"

fun repack_walk :: "walk_item list \<Rightarrow> members \<Rightarrow> error + members" where
  "repack_walk [] output = Inr output"
| "repack_walk ((root, directories, files) # items) output =
     (case repack_files root files output of
        Inl e \<Rightarrow> Inl e
      | Inr output' \<Rightarrow> repack_walk items output')"

definition repack :: "node \<Rightarrow> error + members" where
  "repack directory = repack_walk (walk [] directory) []"

section \<open>The contract pack\<close>

text \<open>
  The specification describes both functions by one contract \<^verbatim>\<open>pack\<close> with an optional
  excluded path. \<open>pack\<close> is the loop of lines 175 to 187 with the path of line 183 as
  that parameter: \<^verbatim>\<open>package_sdk_source\<close> is \<open>pack\<close> at \<^verbatim>\<open>source.properties\<close> and \<^verbatim>\<open>repack\<close>
  is \<open>pack\<close> without an exclusion, which the theorem of claim C9 proves. The
  compression policy does not change the members and is left out.
\<close>

fun pack_files ::
  "string option \<Rightarrow> string list \<Rightarrow> (string \<times> node) list \<Rightarrow> members \<Rightarrow> error + members" where
  "pack_files exclude root [] output = Inr output"
| "pack_files exclude root ((file_name, t) # files) output =
     (let target_file = relpath (root @ [file_name]) in
      if exclude = Some target_file then pack_files exclude root files output
      else
        (case t of
           File c \<Rightarrow> pack_files exclude root files (output @ [(target_file, c)])
         | _ \<Rightarrow> Inl (IOError target_file)))"

fun pack_walk :: "string option \<Rightarrow> walk_item list \<Rightarrow> members \<Rightarrow> error + members" where
  "pack_walk exclude [] output = Inr output"
| "pack_walk exclude ((root, directories, files) # items) output =
     (case pack_files exclude root files output of
        Inl e \<Rightarrow> Inl e
      | Inr output' \<Rightarrow> pack_walk exclude items output')"

definition pack :: "string option \<Rightarrow> node \<Rightarrow> error + members" where
  "pack exclude directory = pack_walk exclude (walk [] directory) []"

section \<open>generate\_plugins\<close>

text \<open>
  The content of a file of the run: text, a ZIP archive with its members, or the
  archive that a packaging task left behind when it raised.
\<close>

datatype payload = Text string | Archive members | PartialArchive

text \<open>
  The state that \<^verbatim>\<open>generate_plugins\<close> changes: the dictionary \<^verbatim>\<open>sdk_archives\<close> from an
  API level to the name of its temporary file, the temporary files on disk, and the
  members written to the archive \<^verbatim>\<open>output\<close>.
\<close>

record assembly =
  sdk_archives :: "(nat \<times> string) list"
  temp_files :: "(string \<times> payload) list"
  output_jar :: "(string \<times> payload) list"

definition assembly_init :: assembly where
  "assembly_init = \<lparr>sdk_archives = [], temp_files = [], output_jar = []\<rparr>"

text \<open>
  One packaging task (lines 271 to 276). \<open>temp_name\<close> gives the name that
  \<^verbatim>\<open>NamedTemporaryFile\<close> chooses for the task of a level. The file is created with
  \<^verbatim>\<open>delete=False\<close>, so it stays on disk when \<^verbatim>\<open>package_sdk_source\<close> raises; the
  exception is kept in the future of the task, which nothing reads, and the level is
  not entered in \<^verbatim>\<open>sdk_archives\<close>.
\<close>

definition asynchronous_packer ::
  "filesystem \<Rightarrow> (nat \<Rightarrow> string) \<Rightarrow> assembly \<Rightarrow> nat \<times> string \<Rightarrow> assembly" where
  "asynchronous_packer fs temp_name a task =
     (case task of (api_level, path) \<Rightarrow>
        (case package_sdk_source (tree_at fs path) of
           Inl e \<Rightarrow>
             a\<lparr>temp_files := AList.update (temp_name api_level) PartialArchive (temp_files a)\<rparr>
         | Inr ms \<Rightarrow>
             a\<lparr>temp_files := AList.update (temp_name api_level) (Archive ms) (temp_files a),
               sdk_archives := AList.update api_level (temp_name api_level) (sdk_archives a)\<rparr>))"

text \<open>
  The worker pool (lines 280 to 284): the \<^verbatim>\<open>with\<close> block returns when every submitted
  task has finished. \<open>schedule\<close> is the order in which the pool finishes the tasks, a
  rearrangement of the submitted ones that depends on the number of workers and on the
  scheduler.
\<close>

definition run_pool ::
  "filesystem \<Rightarrow> (nat \<Rightarrow> string) \<Rightarrow> (nat \<times> string) list \<Rightarrow> assembly \<Rightarrow> assembly" where
  "run_pool fs temp_name schedule a = foldl (asynchronous_packer fs temp_name) a schedule"

text \<open>\<^verbatim>\<open>'com.android.ide.eclipse.source_' + variables['VERSION'] + '.jar'\<close> (line 287).\<close>

definition version_of :: "(string \<times> pyval) list \<Rightarrow> error + string" where
  "version_of variables =
     (case map_of variables ''VERSION'' of
        None \<Rightarrow> Inl (KeyError ''VERSION'')
      | Some (PyStr v) \<Rightarrow> Inr v
      | Some (PyInt i) \<Rightarrow> Inl TypeError)"

text \<open>
  The members that do not depend on the tasks (lines 294 to 308). An exception leaves
  the \<^verbatim>\<open>with\<close> block of the archive, which closes it with the members written so far:
  the result on the left is the exception with those members.
\<close>

fun write_assets ::
  "filesystem \<Rightarrow> string \<Rightarrow> string list \<Rightarrow> (string \<times> payload) list
     \<Rightarrow> (error \<times> (string \<times> payload) list) + (string \<times> payload) list" where
  "write_assets fs assets [] jar = Inr jar"
| "write_assets fs assets (item # items) jar =
     (case readlines fs (path_join assets item) of
        None \<Rightarrow> Inl (IOError (path_join assets item), jar)
      | Some ls \<Rightarrow> write_assets fs assets items (jar @ [(item, Text (concat ls))]))"

definition write_static ::
  "filesystem \<Rightarrow> string \<Rightarrow> (string \<times> pyval) list
     \<Rightarrow> ((error \<times> (string \<times> payload) list) + (string \<times> payload) list) option" where
  "write_static fs assets variables =
     (case write_assets fs assets
             [''about.html'', ''about.ini'', ''about.mappings'', ''android_32x32.png''] [] of
        Inl r \<Rightarrow> Some (Inl r)
      | Inr jar1 \<Rightarrow>
         (case preprocess fs (path_join assets ''about.properties'') variables of
            None \<Rightarrow> None
          | Some (Inl e) \<Rightarrow> Some (Inl (e, jar1))
          | Some (Inr properties) \<Rightarrow>
             (case preprocess fs (path_join assets (path_join ''META-INF'' ''MANIFEST.MF''))
                     variables of
                None \<Rightarrow> None
              | Some (Inl e) \<Rightarrow> Some (Inl (e, jar1 @ [(''about.properties'', Text properties)]))
              | Some (Inr manifest) \<Rightarrow>
                 (case readlines fs (path_join assets ''android_32x32.png'') of
                    None \<Rightarrow>
                      Some (Inl (IOError (path_join assets ''android_32x32.png''),
                                 jar1 @ [(''about.properties'', Text properties),
                                         (path_join ''META-INF'' ''MANIFEST.MF'', Text manifest)]))
                  | Some ls \<Rightarrow>
                      Some (Inr (jar1 @ [(''about.properties'', Text properties),
                                         (path_join ''META-INF'' ''MANIFEST.MF'', Text manifest),
                                         (path_join ''icons'' ''android_32x32.png'',
                                          Text (concat ls))]))))))"

text \<open>
  The loop over \<^verbatim>\<open>sorted(sdks)\<close> (lines 312 to 317): the temporary file of the level is
  copied into the archive under \<^verbatim>\<open>str(sdk)/sources.zip\<close> and removed. A level without
  an entry in \<^verbatim>\<open>sdk_archives\<close> raises \<^verbatim>\<open>KeyError\<close>.
\<close>

fun write_sdks :: "assembly \<Rightarrow> nat list \<Rightarrow> (error \<times> assembly) + assembly" where
  "write_sdks a [] = Inr a"
| "write_sdks a (sdk # sdks) =
     (case map_of (sdk_archives a) sdk of
        None \<Rightarrow> Inl (KeyError (str_nat sdk), a)
      | Some name \<Rightarrow>
         (case map_of (temp_files a) name of
            None \<Rightarrow> Inl (IOError name, a)
          | Some content \<Rightarrow>
              write_sdks
                (a\<lparr>output_jar := output_jar a @ [(path_join (str_nat sdk) ''sources.zip'', content)],
                   temp_files := AList.delete name (temp_files a)\<rparr>)
                sdks))"

text \<open>
  \<^verbatim>\<open>generate_plugins\<close>. \<^verbatim>\<open>ThreadPoolExecutor\<close> raises \<^verbatim>\<open>ValueError\<close> for a number of
  workers that is not positive. The catalog \<open>sdks\<close> is the dictionary of
  \<^verbatim>\<open>collect_android_sources\<close>. The result is \<open>None\<close> when a template makes
  \<^verbatim>\<open>preprocess\<close> loop forever; otherwise it is the final state, on the left together
  with the exception that ended the run.
\<close>

definition generate_plugins ::
  "filesystem \<Rightarrow> (nat \<Rightarrow> string) \<Rightarrow> (nat \<times> string) list \<Rightarrow> string
     \<Rightarrow> (string \<times> pyval) list \<Rightarrow> (nat \<times> string) list \<Rightarrow> int
     \<Rightarrow> ((error \<times> assembly) + assembly) option" where
  "generate_plugins fs temp_name schedule base variables sdks threads =
     (if threads \<le> 0 then Some (Inl (ValueError, assembly_init))
      else
        (let a = run_pool fs temp_name schedule assembly_init in
         case version_of variables of
           Inl e \<Rightarrow> Some (Inl (e, a))
         | Inr version \<Rightarrow>
            (case write_static fs (path_join (path_join base ''assets'') ''plugins'') variables of
               None \<Rightarrow> None
             | Some (Inl (e, jar)) \<Rightarrow> Some (Inl (e, a\<lparr>output_jar := jar\<rparr>))
             | Some (Inr jar) \<Rightarrow>
                 Some (write_sdks (a\<lparr>output_jar := jar\<rparr>) (sort (map fst sdks))))))"

section \<open>Auxiliary notions for the statements\<close>

text \<open>
  The properties of a subdirectory give no API level: the key is absent, or its value
  is empty or fails \<^verbatim>\<open>isdigit\<close> (line 158).
\<close>

definition no_api_level :: "(string \<times> string) list \<Rightarrow> bool" where
  "no_api_level properties =
     (case map_of properties ''AndroidVersion.ApiLevel'' of
        None \<Rightarrow> True
      | Some api_level \<Rightarrow> api_level = [] \<or> \<not> isdigit api_level)"

text \<open>
  A line on which the loop of \<^verbatim>\<open>preprocess\<close> finds a pair of markers whose name is
  not a key of \<^verbatim>\<open>variables\<close>.
\<close>

definition unresolved :: "(string \<times> pyval) list \<Rightarrow> string \<Rightarrow> bool" where
  "unresolved variables line =
     (case str_find line ''%%'' of
        None \<Rightarrow> False
      | Some start_marker \<Rightarrow>
          (case str_index line ''%%'' (start_marker + 2) of
             None \<Rightarrow> False
           | Some end_marker \<Rightarrow>
               map_of variables
                 (take (end_marker - (start_marker + 2)) (drop (start_marker + 2) line)) = None))"

text \<open>
  An example file system for the concrete runs below: an SDK at \<^verbatim>\<open>sdk\<close> whose directory
  \<^verbatim>\<open>sdk/sources\<close> lists \<open>dirs\<close>, with the text files \<open>files\<close>.
\<close>

definition example_fs :: "string list \<Rightarrow> (string \<times> string list) list \<Rightarrow> filesystem" where
  "example_fs dirs files =
     \<lparr>path_exists = (\<lambda>p. p = ''sdk/sources''),
      listdir = (\<lambda>p. if p = ''sdk/sources'' then Some dirs else None),
      readlines = map_of files,
      tree_at = (\<lambda>p. Dir [])\<rparr>"

text \<open>
  An example file system for \<^verbatim>\<open>generate_plugins\<close>: the assets of the plugin under
  \<^verbatim>\<open>base/assets/plugins\<close> and three source trees, of which \<^verbatim>\<open>src2\<close> holds a file that
  cannot be read.
\<close>

definition example_site :: filesystem where
  "example_site =
     \<lparr>path_exists = (\<lambda>p. True),
      listdir = (\<lambda>p. None),
      readlines = map_of
        [(''base/assets/plugins/about.html'', [''<html/>'']),
         (''base/assets/plugins/about.ini'', [''ini'']),
         (''base/assets/plugins/about.mappings'', [''0=1'']),
         (''base/assets/plugins/android_32x32.png'', [''PNG'']),
         (''base/assets/plugins/about.properties'', [''v=%%VERSION%%'']),
         (''base/assets/plugins/META-INF/MANIFEST.MF'', [''Bundle-Version: %%VERSION%%''])],
      tree_at = (\<lambda>p. if p = ''src1'' then Dir [(''a.java'', File ''A'')]
                     else if p = ''src2'' then Dir [(''b.java'', Unreadable)]
                     else if p = ''src3'' then Dir [(''c.java'', File ''C'')]
                     else File [])\<rparr>"

text \<open>Example names for the temporary files.\<close>

definition example_temp_name :: "nat \<Rightarrow> string" where
  "example_temp_name l = ''/tmp/tmp'' @ str_nat l"

text \<open>
  The entries of a tree that are not directories, each at its path from the root of
  the tree: the regular files of the tree and the files that cannot be read.
\<close>

inductive entry_at :: "node \<Rightarrow> string list \<Rightarrow> node \<Rightarrow> bool" where
  here: "(n, t) \<in> set es \<Longrightarrow> \<not> is_dir t \<Longrightarrow> entry_at (Dir es) [n] t"
| below: "(n, Dir ds) \<in> set es \<Longrightarrow> entry_at (Dir ds) p t \<Longrightarrow> entry_at (Dir es) (n # p) t"

code_pred entry_at .

text \<open>
  The entries that a walk lists as files, with their paths, and those among them that
  are written under an exclusion: all but the excluded path.
\<close>

definition walk_entries :: "walk_item list \<Rightarrow> (string list \<times> node) list" where
  "walk_entries items =
     concat (map (\<lambda>(root, directories, files). map (\<lambda>(n, t). (root @ [n], t)) files) items)"

definition kept :: "string option \<Rightarrow> (string list \<times> node) list \<Rightarrow> (string list \<times> node) list" where
  "kept exclude entries = filter (\<lambda>(p, t). exclude \<noteq> Some (relpath p)) entries"


fun content :: "node \<Rightarrow> string" where
  "content (File c) = c"
| "content Unreadable = []"
| "content (Dir es) = []"

text \<open>A packaging task succeeds when \<^verbatim>\<open>package_sdk_source\<close> does not raise.\<close>

definition packs :: "filesystem \<Rightarrow> string \<Rightarrow> bool" where
  "packs fs path = (case package_sdk_source (tree_at fs path) of Inl e \<Rightarrow> False | Inr ms \<Rightarrow> True)"

text \<open>The name of the member of an API level, and the names of the static members.\<close>

definition level_name :: "nat \<Rightarrow> string" where
  "level_name l = str_nat l @ ''/sources.zip''"

definition static_names :: "string list" where
  "static_names = [''about.html'', ''about.ini'', ''about.mappings'', ''android_32x32.png'',
                   ''about.properties'', ''META-INF/MANIFEST.MF'', ''icons/android_32x32.png'']"

section \<open>Properties of split\_property\_line\<close>

lemma example_fs_simps:
  "path_exists (example_fs dirs files) p = (p = ''sdk/sources'')"
  "listdir (example_fs dirs files) p = (if p = ''sdk/sources'' then Some dirs else None)"
  "readlines (example_fs dirs files) = map_of files"
  by (simp_all add: example_fs_def)

text \<open>
  Claim C3. A unicode escape is replaced by the decimal string of its four hexadecimal
  digits, so that \<^verbatim>\<open>k=\u0041\<close> gives the value \<^verbatim>\<open>65\<close>. The code appends the decimal
  string only when it reads the character after the fourth digit (line 68); an escape
  that ends the line is never appended, and on \<^verbatim>\<open>k=\u0041\<close> the function returns the key
  \<^verbatim>\<open>k\<close> with the empty value.
\<close>

theorem split_property_line_unicode_at_end:
  "split_property_line (''k='' @ [backslash] @ ''u0041'') = Some (''k'', [])"
  by code_simp

text \<open>An escape that is followed by a character is replaced, as the claim says.\<close>

lemma split_property_line_unicode_inside:
  "split_property_line (''k='' @ [backslash] @ ''u0041x'') = Some (''k'', ''65x'')"
  by code_simp

text \<open>
  In general, an escape that is followed by a character \<open>c\<close> is replaced by the
  decimal string before \<open>c\<close> is scanned.
\<close>

lemma scan_char_hex_digit:
  assumes "hex_code s" and "length (hex_string s) \<noteq> 4" and "c \<in> set hex_digits"
  shows "scan_char s c = Some (s\<lparr>hex_string := hex_string s @ [c]\<rparr>)"
  using assms by (simp add: scan_char_def)

lemma scan_char_hex_flush:
  assumes "hex_code s" and "length (hex_string s) = 4"
  shows "scan_char s c =
     scan_plain (s\<lparr>current_line := current_line s @ str_nat (int16 (hex_string s)),
                    hex_code := False, hex_string := []\<rparr>) c"
  using assms by (simp add: scan_char_def)

lemma scan_char_escape_start:
  assumes "\<not> hex_code s"
  shows "scan_char s backslash = Some (s\<lparr>escaped := True\<rparr>)"
    and "scan_char (s\<lparr>escaped := True\<rparr>) (CHR ''u'') =
           Some (s\<lparr>hex_code := True, hex_string := [], escaped := False\<rparr>)"
  using assms by (simp_all add: scan_char_def scan_plain_def backslash_def)

lemma scan_unicode_escape:
  assumes "\<not> hex_code s" and "set [h1, h2, h3, h4] \<subseteq> set hex_digits"
  shows "scan s ([backslash, CHR ''u'', h1, h2, h3, h4] @ c # cs) =
     (case scan_plain (s\<lparr>escaped := False,
                           current_line := current_line s @ str_nat (int16 [h1, h2, h3, h4]),
                           hex_code := False, hex_string := []\<rparr>) c of
        None \<Rightarrow> None | Some s' \<Rightarrow> scan s' cs)"
  using assms(2)
  by (simp add: scan_char_escape_start [OF assms(1)] scan_char_hex_digit scan_char_hex_flush)

text \<open>
  Claim C4. A second unescaped separator after the key makes the parse fail, so that
  \<^verbatim>\<open>k=v=w\<close> is rejected. The guard of line 92 tests \<^verbatim>\<open>in_key\<close>, which stays \<^verbatim>\<open>True\<close>
  for the whole scan: on \<^verbatim>\<open>k=v=w\<close> the second separator starts the key again and the
  function returns the key \<^verbatim>\<open>v\<close> with the value \<^verbatim>\<open>w\<close>.
\<close>

theorem split_property_line_second_separator:
  "split_property_line ''k=v=w'' = Some (''v'', ''w'')"
  by code_simp

text \<open>No step of the scan changes \<^verbatim>\<open>in_key\<close>.\<close>

lemma scan_plain_in_key: "scan_plain s c = Some s' \<Longrightarrow> in_key s' = in_key s"
  by (auto simp: scan_plain_def split: if_splits)

lemma scan_char_in_key: "scan_char s c = Some s' \<Longrightarrow> in_key s' = in_key s"
  by (auto simp: scan_char_def split: if_splits dest: scan_plain_in_key)

lemma scan_in_key: "scan s cs = Some s' \<Longrightarrow> in_key s' = in_key s"
  by (induction cs arbitrary: s) (auto split: option.splits dest: scan_char_in_key)

section \<open>Properties of parse\_property\_file\<close>

lemma read_lines_append:
  "read_lines r (xs @ ys) =
     (case read_lines r xs of Inl e \<Rightarrow> Inl e | Inr r' \<Rightarrow> read_lines r' ys)"
  by (induction xs arbitrary: r) (auto split: sum.splits)

lemma read_line_continuation:
  assumes "endswith (strip l) [backslash]"
  shows "\<exists>r'. read_line r l = Inr r' \<and> values_dict r' = values_dict r"
proof -
  from assms have "strip l \<noteq> []" by (auto simp: endswith_def)
  with assms show ?thesis by (simp add: read_line_def Let_def)
qed

lemma read_lines_continuations:
  assumes "\<forall>l \<in> set tail. endswith (strip l) [backslash]"
  shows "\<exists>r'. read_lines r tail = Inr r' \<and> values_dict r' = values_dict r"
  using assms
proof (induction tail arbitrary: r)
  case Nil
  then show ?case by simp
next
  case (Cons l tail)
  then obtain r1 where r1: "read_line r l = Inr r1" "values_dict r1 = values_dict r"
    using read_line_continuation by (metis list.set_intros(1))
  from Cons obtain r' where "read_lines r1 tail = Inr r'" "values_dict r' = values_dict r1"
    by (metis list.set_intros(2))
  with r1 show ?case by simp
qed

lemma read_lines_blank:
  assumes "\<forall>b \<in> set blanks. strip b = []"
  shows "read_lines r (blanks @ ls) = read_lines r ls"
  using assms by (induction blanks) (simp_all add: read_line_def)

text \<open>
  Claim C7, as amended. A physical line that is not skipped and whose stripped text
  ends with a backslash is buffered, and the next physical line that is not blank
  continues it, whether or not it starts with a comment character. When that line
  does not end with a backslash itself, the line given to \<^verbatim>\<open>split_property_line\<close> is
  the buffer, a space, the stripped first line with its trailing backslash, a space,
  and the stripped second line.
\<close>

theorem continuation_joined:
  assumes "endswith (strip l1) [backslash]"
    and "is_continuing r \<or> \<not> (startswith (strip l1) ''#'' \<or> startswith (strip l1) ''!'')"
    and "\<forall>b \<in> set blanks. strip b = []"
    and "strip l2 \<noteq> []"
    and "\<not> endswith (strip l2) [backslash]"
  shows "read_lines r (l1 # blanks @ l2 # ls) =
     (case split_property_line (line_buffer r @ '' '' @ strip l1 @ '' '' @ strip l2) of
        None \<Rightarrow> Inl (GenericException
                 (''Invalid property found in'' @ line_buffer r @ '' '' @ strip l1 @ '' '' @ strip l2))
      | Some (k, v) \<Rightarrow>
          read_lines (r\<lparr>is_continuing := False, line_buffer := [],
                        values_dict := AList.update k v (values_dict r)\<rparr>) ls)"
proof -
  from assms(1) have ne: "strip l1 \<noteq> []" by (auto simp: endswith_def)
  have 1: "read_line r l1 =
      Inr (r\<lparr>is_continuing := True, line_buffer := line_buffer r @ '' '' @ strip l1\<rparr>)"
    using assms(1,2) ne by (auto simp: read_line_def Let_def)
  define r1 where "r1 = r\<lparr>is_continuing := True, line_buffer := line_buffer r @ '' '' @ strip l1\<rparr>"
  have 2: "read_line r1 l2 =
     (case split_property_line (line_buffer r @ '' '' @ strip l1 @ '' '' @ strip l2) of
        None \<Rightarrow> Inl (GenericException
                 (''Invalid property found in'' @ line_buffer r @ '' '' @ strip l1 @ '' '' @ strip l2))
      | Some (k, v) \<Rightarrow>
          Inr (r\<lparr>is_continuing := False, line_buffer := [],
                 values_dict := AList.update k v (values_dict r)\<rparr>))"
    using assms(4,5) by (simp add: r1_def read_line_def Let_def split: option.splits)
  have "read_lines r (l1 # blanks @ l2 # ls) = read_lines r1 (blanks @ l2 # ls)"
    by (simp add: 1 r1_def)
  also have "\<dots> = read_lines r1 (l2 # ls)"
    by (rule read_lines_blank [OF assms(3)])
  also have "\<dots> = (case read_line r1 l2 of Inl e \<Rightarrow> Inl e | Inr r' \<Rightarrow> read_lines r' ls)"
    by simp
  finally show ?thesis
    by (simp add: 2 split: option.splits)
qed

text \<open>
  The theorem at the line \<^verbatim>\<open>a=b\\<close>, an empty line and the line \<^verbatim>\<open>#c\<close>: the last line
  is not skipped as a comment.
\<close>

theorem continuation_joined_witness:
  "endswith (strip (''a=b'' @ [backslash, CHR 0x0A])) [backslash] \<and>
   strip [CHR 0x0A] = [] \<and>
   strip (''#c'' @ [CHR 0x0A]) \<noteq> [] \<and>
   \<not> endswith (strip (''#c'' @ [CHR 0x0A])) [backslash] \<and>
   read_lines reader_init [''a=b'' @ [backslash, CHR 0x0A], [CHR 0x0A], ''#c'' @ [CHR 0x0A]] =
     Inr \<lparr>is_continuing = False, line_buffer = [],
          values_dict = [(''a'', ''b'' @ [backslash] @ '' #c'')]\<rparr>"
proof -
  have h1: "endswith (strip (''a=b'' @ [backslash, CHR 0x0A])) [backslash]" by code_simp
  have h2: "is_continuing reader_init \<or>
     \<not> (startswith (strip (''a=b'' @ [backslash, CHR 0x0A])) ''#'' \<or>
        startswith (strip (''a=b'' @ [backslash, CHR 0x0A])) ''!'')" by code_simp
  have b: "strip [CHR 0x0A] = []" by code_simp
  then have h3: "\<forall>b \<in> set [[CHR 0x0A]]. strip b = []" by simp
  have h4: "strip (''#c'' @ [CHR 0x0A]) \<noteq> []" by code_simp
  have h5: "\<not> endswith (strip (''#c'' @ [CHR 0x0A])) [backslash]" by code_simp
  have s: "split_property_line (line_buffer reader_init @ '' '' @
             strip (''a=b'' @ [backslash, CHR 0x0A]) @ '' '' @ strip (''#c'' @ [CHR 0x0A]))
           = Some (''a'', ''b'' @ [backslash] @ '' #c'')" by code_simp
  have "read_lines reader_init
          ((''a=b'' @ [backslash, CHR 0x0A]) # [[CHR 0x0A]] @ (''#c'' @ [CHR 0x0A]) # []) =
     Inr \<lparr>is_continuing = False, line_buffer = [],
          values_dict = [(''a'', ''b'' @ [backslash] @ '' #c'')]\<rparr>"
    unfolding continuation_joined [OF h1 h2 h3 h4 h5] s
    by (simp add: reader_init_def)
  then have "read_lines reader_init
          [''a=b'' @ [backslash, CHR 0x0A], [CHR 0x0A], ''#c'' @ [CHR 0x0A]] =
     Inr \<lparr>is_continuing = False, line_buffer = [],
          values_dict = [(''a'', ''b'' @ [backslash] @ '' #c'')]\<rparr>"
    by simp
  with h1 b h4 h5 show ?thesis by blast
qed

text \<open>
  Claim C7 as it is written says that the continuation marker is not part of the parsed
  content. On the two lines \<^verbatim>\<open>a=b\\<close> and \<^verbatim>\<open>c\<close> the value of \<^verbatim>\<open>a\<close> keeps the
  backslash: it is \<^verbatim>\<open>b\ c\<close>, not \<^verbatim>\<open>b c\<close>.
\<close>

theorem continuation_marker_kept:
  "parse_property_file
     (example_fs [] [(''f'', [''a=b'' @ [backslash, CHR 0x0A], ''c'' @ [CHR 0x0A]])]) ''f''
     = Inr [(''a'', ''b'' @ [backslash] @ '' c'')] \<and>
   parse_property_file
     (example_fs [] [(''f'', [''a=b'' @ [backslash, CHR 0x0A], ''c'' @ [CHR 0x0A]])]) ''f''
     \<noteq> Inr [(''a'', ''b c'')]"
  by code_simp

text \<open>
  Claim C10. When the last physical lines of a file all end with a backslash, the
  buffered logical line is dropped: the file parses to what it parses to without
  those lines, so they raise no error and add no key.
\<close>

theorem unterminated_continuation_discarded:
  assumes "readlines fs name = Some (pre @ tail)"
    and "\<forall>l \<in> set tail. endswith (strip l) [backslash]"
  shows "parse_property_file fs name =
         parse_property_file (fs\<lparr>readlines := (readlines fs)(name \<mapsto> pre)\<rparr>) name"
proof (cases "read_lines reader_init pre")
  case (Inl e)
  with assms(1) show ?thesis
    by (simp add: parse_property_file_def read_lines_append)
next
  case (Inr r1)
  from read_lines_continuations [OF assms(2), of r1]
  obtain r' where "read_lines r1 tail = Inr r'" "values_dict r' = values_dict r1" by blast
  with Inr assms(1) show ?thesis
    by (simp add: parse_property_file_def read_lines_append)
qed

text \<open>The theorem at the file of the two lines \<^verbatim>\<open>x=1\<close> and \<^verbatim>\<open>a=b\\<close>.\<close>

theorem unterminated_continuation_discarded_witness:
  "readlines (example_fs [] [(''f'', [''x=1'', ''a=b'' @ [backslash]])]) ''f''
     = Some ([''x=1''] @ [''a=b'' @ [backslash]]) \<and>
   endswith (strip (''a=b'' @ [backslash])) [backslash] \<and>
   parse_property_file (example_fs [] [(''f'', [''x=1'', ''a=b'' @ [backslash]])]) ''f''
     = Inr [(''x'', ''1'')]"
proof -
  have h1: "readlines (example_fs [] [(''f'', [''x=1'', ''a=b'' @ [backslash]])]) ''f''
     = Some ([''x=1''] @ [''a=b'' @ [backslash]])"
    by (simp add: example_fs_simps)
  have h2: "\<forall>l \<in> set [''a=b'' @ [backslash]]. endswith (strip l) [backslash]"
    by code_simp
  have "parse_property_file
          ((example_fs [] [(''f'', [''x=1'', ''a=b'' @ [backslash]])])
             \<lparr>readlines := (readlines (example_fs [] [(''f'', [''x=1'', ''a=b'' @ [backslash]])]))
                 (''f'' \<mapsto> [''x=1''])\<rparr>) ''f'' = Inr [(''x'', ''1'')]"
    by code_simp
  with unterminated_continuation_discarded [OF h1 h2] h1 h2 show ?thesis by simp
qed

section \<open>Properties of collect\_android\_sources\<close>

lemma collect_directory_missing_file:
  assumes "readlines fs (path_join (path_join sources d) ''source.properties'') = None"
  shows "collect_directory fs sources acc d =
         Inl (IOError (path_join (path_join sources d) ''source.properties''))"
  using assms by (simp add: collect_directory_def parse_property_file_def Let_def)

lemma collect_loop_missing_file:
  assumes "d \<in> set ds"
    and "readlines fs (path_join (path_join sources d) ''source.properties'') = None"
  shows "\<exists>e. collect_loop fs sources acc ds = Inl e"
  using assms
proof (induction ds arbitrary: acc)
  case Nil
  then show ?case by simp
next
  case (Cons x ds)
  show ?case
  proof (cases "collect_directory fs sources acc x")
    case (Inl e)
    then show ?thesis by simp
  next
    case (Inr acc')
    with Cons.prems collect_directory_missing_file have "d \<noteq> x" by fastforce
    with Cons.prems have "d \<in> set ds" by simp
    with Cons.IH Cons.prems(2) Inr show ?thesis by simp
  qed
qed

lemma update_new_differs:
  assumes "k \<notin> set (map fst al)"
  shows "AList.update k v al \<noteq> al"
proof
  assume "AList.update k v al = al"
  then have "map fst (AList.update k v al) = map fst al" by simp
  with assms show False by (simp add: update_keys)
qed

lemma collect_directory_excluded_iff:
  "collect_directory fs sources acc d = Inr acc \<longleftrightarrow>
     (\<exists>properties.
        parse_property_file fs (path_join (path_join sources d) ''source.properties'')
          = Inr properties \<and> no_api_level properties)"
proof (cases "parse_property_file fs (path_join (path_join sources d) ''source.properties'')")
  case (Inl e)
  then show ?thesis by (simp add: collect_directory_def Let_def)
next
  case (Inr properties)
  show ?thesis
  proof (cases "map_of properties ''AndroidVersion.ApiLevel''")
    case None
    with Inr show ?thesis by (simp add: collect_directory_def Let_def no_api_level_def)
  next
    case (Some api_level)
    show ?thesis
    proof (cases "api_level = [] \<or> \<not> isdigit api_level")
      case True
      with Inr Some show ?thesis
        by (auto simp: collect_directory_def Let_def no_api_level_def)
    next
      case False
      have "collect_directory fs sources acc d \<noteq> Inr acc"
      proof (cases "py_int api_level")
        case (Inl e)
        with Inr Some False show ?thesis by (simp add: collect_directory_def Let_def)
      next
        case (Inr n)
        with \<open>parse_property_file fs (path_join (path_join sources d) ''source.properties'')
              = Inr properties\<close> Some False
        show ?thesis
          by (simp add: collect_directory_def Let_def update_new_differs)
      qed
      moreover from Inr Some False have "\<not> no_api_level properties"
        by (simp add: no_api_level_def)
      ultimately show ?thesis using Inr by simp
    qed
  qed
qed

lemma collect_loop_append:
  "collect_loop fs sources acc (xs @ ys) =
     (case collect_loop fs sources acc xs of
        Inl e \<Rightarrow> Inl e
      | Inr acc' \<Rightarrow> collect_loop fs sources acc' ys)"
  by (induction xs arbitrary: acc) (auto split: sum.splits)

text \<open>
  Claim C5, as amended. No statement of \<^verbatim>\<open>collect_android_sources\<close> or of
  \<^verbatim>\<open>parse_property_file\<close> catches the error of \<^verbatim>\<open>open\<close>. When the \<^verbatim>\<open>source.properties\<close>
  of a listed subdirectory cannot be opened, the collection fails and returns no
  catalog: the step for that subdirectory raises the error of \<^verbatim>\<open>open\<close> for its file,
  and this is the error of the run when the subdirectories listed before it are
  collected without error. A subdirectory is left out, with the catalog unchanged and
  the loop going on with the remaining ones, exactly when its file parses and gives no
  API level.
\<close>

theorem collect_missing_properties_fails:
  assumes "listdir fs (path_join base_directory ''sources'') = Some ds"
    and "d \<in> set ds"
    and "readlines fs (path_join (path_join (path_join base_directory ''sources'') d)
                         ''source.properties'') = None"
  shows "(\<exists>e. collect_android_sources fs base_directory = Inl e) \<and>
    (\<forall>acc. collect_directory fs (path_join base_directory ''sources'') acc d =
       Inl (IOError (path_join (path_join (path_join base_directory ''sources'') d)
                       ''source.properties''))) \<and>
    (\<forall>pre post acc.
       path_exists fs (path_join base_directory ''sources'') \<and> ds = pre @ d # post \<and>
       collect_loop fs (path_join base_directory ''sources'') [] pre = Inr acc \<longrightarrow>
       collect_android_sources fs base_directory =
         Inl (IOError (path_join (path_join (path_join base_directory ''sources'') d)
                         ''source.properties''))) \<and>
    (\<forall>sources acc d'.
       collect_directory fs sources acc d' = Inr acc \<longleftrightarrow>
         (\<exists>properties.
            parse_property_file fs (path_join (path_join sources d') ''source.properties'')
              = Inr properties \<and> no_api_level properties)) \<and>
    (\<forall>sources acc d' rest.
       collect_directory fs sources acc d' = Inr acc \<longrightarrow>
       collect_loop fs sources acc (d' # rest) = collect_loop fs sources acc rest)"
proof (intro conjI allI impI)
  show "\<exists>e. collect_android_sources fs base_directory = Inl e"
    using assms(1) collect_loop_missing_file [OF assms(2,3)]
    by (simp add: collect_android_sources_def Let_def)
next
  fix acc
  show "collect_directory fs (path_join base_directory ''sources'') acc d =
       Inl (IOError (path_join (path_join (path_join base_directory ''sources'') d)
                       ''source.properties''))"
    by (rule collect_directory_missing_file [OF assms(3)])
next
  fix pre post acc
  assume a: "path_exists fs (path_join base_directory ''sources'') \<and> ds = pre @ d # post \<and>
       collect_loop fs (path_join base_directory ''sources'') [] pre = Inr acc"
  then have "collect_loop fs (path_join base_directory ''sources'') [] ds =
       Inl (IOError (path_join (path_join (path_join base_directory ''sources'') d)
                       ''source.properties''))"
    by (simp add: collect_loop_append collect_directory_missing_file [OF assms(3)])
  with a assms(1) show "collect_android_sources fs base_directory =
         Inl (IOError (path_join (path_join (path_join base_directory ''sources'') d)
                         ''source.properties''))"
    by (simp add: collect_android_sources_def Let_def)
next
  fix sources acc d'
  show "collect_directory fs sources acc d' = Inr acc \<longleftrightarrow>
         (\<exists>properties.
            parse_property_file fs (path_join (path_join sources d') ''source.properties'')
              = Inr properties \<and> no_api_level properties)"
    by (rule collect_directory_excluded_iff)
next
  fix sources acc d' rest
  assume "collect_directory fs sources acc d' = Inr acc"
  then show "collect_loop fs sources acc (d' # rest) = collect_loop fs sources acc rest"
    by simp
qed

text \<open>
  The theorem at an SDK of two subdirectories, the first with a readable file and the
  second without one: the run ends with the error of \<^verbatim>\<open>open\<close> for the second.
\<close>

theorem collect_missing_properties_fails_witness:
  "listdir (example_fs [''b'', ''a'']
        [(''sdk/sources/b/source.properties'', [''AndroidVersion.ApiLevel=21''])])
      (path_join ''sdk'' ''sources'') = Some [''b'', ''a''] \<and>
   ''a'' \<in> set [''b'', ''a''] \<and>
   readlines (example_fs [''b'', ''a'']
        [(''sdk/sources/b/source.properties'', [''AndroidVersion.ApiLevel=21''])])
      (path_join (path_join (path_join ''sdk'' ''sources'') ''a'') ''source.properties'') = None \<and>
   collect_android_sources (example_fs [''b'', ''a'']
        [(''sdk/sources/b/source.properties'', [''AndroidVersion.ApiLevel=21''])]) ''sdk''
     = Inl (IOError ''sdk/sources/a/source.properties'')"
proof -
  let ?fs = "example_fs [''b'', ''a'']
        [(''sdk/sources/b/source.properties'', [''AndroidVersion.ApiLevel=21''])]"
  have h1: "listdir ?fs (path_join ''sdk'' ''sources'') = Some [''b'', ''a'']" by code_simp
  have h2: "''a'' \<in> set [''b'', ''a'']" by simp
  have h3: "readlines ?fs
      (path_join (path_join (path_join ''sdk'' ''sources'') ''a'') ''source.properties'') = None"
    by code_simp
  have e: "path_exists ?fs (path_join ''sdk'' ''sources'')" by code_simp
  have l: "collect_loop ?fs (path_join ''sdk'' ''sources'') [] [''b''] = Inr [(21, ''sdk/sources/b'')]"
    by code_simp
  have p: "path_join (path_join (path_join ''sdk'' ''sources'') ''a'') ''source.properties''
             = ''sdk/sources/a/source.properties''" by code_simp
  from collect_missing_properties_fails [OF h1 h2 h3]
  have "\<forall>pre post acc.
       path_exists ?fs (path_join ''sdk'' ''sources'') \<and> [''b'', ''a''] = pre @ ''a'' # post \<and>
       collect_loop ?fs (path_join ''sdk'' ''sources'') [] pre = Inr acc \<longrightarrow>
       collect_android_sources ?fs ''sdk'' =
         Inl (IOError (path_join (path_join (path_join ''sdk'' ''sources'') ''a'')
                         ''source.properties''))"
    by blast
  then have "path_exists ?fs (path_join ''sdk'' ''sources'') \<and>
       [''b'', ''a''] = [''b''] @ ''a'' # [] \<and>
       collect_loop ?fs (path_join ''sdk'' ''sources'') [] [''b''] = Inr [(21, ''sdk/sources/b'')] \<longrightarrow>
       collect_android_sources ?fs ''sdk'' =
         Inl (IOError (path_join (path_join (path_join ''sdk'' ''sources'') ''a'')
                         ''source.properties''))"
    by blast
  with e l have "collect_android_sources ?fs ''sdk'' =
         Inl (IOError (path_join (path_join (path_join ''sdk'' ''sources'') ''a'')
                         ''source.properties''))" by simp
  then have "collect_android_sources ?fs ''sdk'' = Inl (IOError ''sdk/sources/a/source.properties'')"
    unfolding p .
  with h1 h2 h3 show ?thesis by blast
qed

text \<open>
  Claim C5 as it is written says that a subdirectory without \<^verbatim>\<open>source.properties\<close> is
  left out and the others are collected. With \<^verbatim>\<open>a\<close> lacking the file and \<^verbatim>\<open>b\<close>
  reporting level 21, the result is the error of \<^verbatim>\<open>open\<close>, not the catalog of \<^verbatim>\<open>b\<close>.
\<close>

theorem collect_missing_properties_counterexample:
  "collect_android_sources
     (example_fs [''a'', ''b'']
        [(''sdk/sources/b/source.properties'', [''AndroidVersion.ApiLevel=21''])]) ''sdk''
   = Inl (IOError ''sdk/sources/a/source.properties'')"
  by code_simp

text \<open>
  Claim C6. A second subdirectory reporting a level that is already in the catalog
  makes the collection fail with an error that names the level. Line 162 builds the
  message with \<^verbatim>\<open>'Duplicated API level: ' + api_level\<close>, where \<^verbatim>\<open>api_level\<close> is an
  \<^verbatim>\<open>int\<close>: on two subdirectories that both report level 21 the run stops with the
  \<^verbatim>\<open>TypeError\<close> of the concatenation, which does not name the level.
\<close>

theorem collect_duplicate_raises_type_error:
  "collect_android_sources
     (example_fs [''a'', ''b'']
        [(''sdk/sources/a/source.properties'', [''AndroidVersion.ApiLevel=21'']),
         (''sdk/sources/b/source.properties'', [''AndroidVersion.ApiLevel=21''])]) ''sdk''
   = Inl TypeError"
  by code_simp

text \<open>
  The failure is immediate for every duplicate, and a level reported once is
  collected once.
\<close>

lemma collect_directory_duplicate:
  assumes "parse_property_file fs (path_join (path_join sources d) ''source.properties'')
             = Inr properties"
    and "map_of properties ''AndroidVersion.ApiLevel'' = Some api_level"
    and "isdigit api_level" and "py_int api_level = Inr n"
    and "n \<in> set (map fst acc)"
  shows "collect_directory fs sources acc d = Inl TypeError"
proof -
  from assms(3) have "api_level \<noteq> []" by (simp add: isdigit_def)
  with assms show ?thesis by (simp add: collect_directory_def Let_def)
qed

lemma collect_one_level_one_entry:
  "collect_android_sources
     (example_fs [''a'', ''b'']
        [(''sdk/sources/a/source.properties'', [''AndroidVersion.ApiLevel=21'']),
         (''sdk/sources/b/source.properties'', [''Pkg.Revision=1''])]) ''sdk''
   = Inr [(21, ''sdk/sources/a'')]"
  by code_simp

section \<open>Properties of preprocess\<close>

lemma preprocess_line_unresolved:
  assumes "unresolved variables line"
  shows "preprocess_line variables line = None"
proof (cases "preprocess_line variables line")
  case None
  then show ?thesis .
next
  case (Some y)
  have "\<not> unresolved variables line"
  proof (rule preprocess_line.raw_induct
      [where P = "\<lambda>vs l y. \<not> unresolved vs l", OF _ Some])
    fix f vs l r
    assume IH: "\<And>vs l r. f vs l = Some r \<Longrightarrow> \<not> unresolved vs l"
      and step: "(case str_find l ''%%'' of
        None \<Rightarrow> Some (Inr l)
      | Some start_marker \<Rightarrow>
          (case str_index l ''%%'' (start_marker + 2) of
             None \<Rightarrow> Some (Inl ValueError)
           | Some end_marker \<Rightarrow>
               (case map_of vs
                       (take (end_marker - (start_marker + 2)) (drop (start_marker + 2) l)) of
                  None \<Rightarrow> f vs l
                | Some v \<Rightarrow>
                    f vs (take start_marker l @ str_value v @ drop (end_marker + 2) l)))) = Some r"
    show "\<not> unresolved vs l"
    proof
      assume u: "unresolved vs l"
      then have "f vs l = Some r"
        using step by (auto simp: unresolved_def split: option.splits)
      then show False using IH u by blast
    qed
  qed
  with assms show ?thesis by simp
qed

text \<open>
  Claim C8. A marker whose name is not in the map is left as it is and the rendering
  ends. The loop of line 195 tests \<^verbatim>\<open>'%%' in line\<close> again without having changed
  \<^verbatim>\<open>line\<close>: on the line \<^verbatim>\<open>Hello %%NAME%%\<close> with only \<^verbatim>\<open>YEAR\<close> defined it never ends.
\<close>

theorem preprocess_unresolved_marker_diverges:
  "preprocess_line [(''YEAR'', PyInt 2013)] ''Hello %%NAME%%'' = None"
  by (rule preprocess_line_unresolved) code_simp

text \<open>A marker that is defined is replaced, and a lone marker raises \<^verbatim>\<open>ValueError\<close>.\<close>

lemma preprocess_line_resolved:
  "preprocess_line [(''YEAR'', PyInt 2013)] ''(c) %%YEAR%% x'' = Some (Inr ''(c) 2013 x'')"
  by code_simp

lemma preprocess_line_lone_marker:
  "preprocess_line [(''YEAR'', PyInt 2013)] ''100%% sure'' = Some (Inl ValueError)"
  by code_simp

section \<open>Properties of package\_sdk\_source\<close>

inductive_simps entry_at_Dir: "entry_at (Dir es) q x"
inductive_simps entry_at_File: "entry_at (File c) q x"
inductive_simps entry_at_Unreadable: "entry_at Unreadable q x"

lemma entry_at_not_dir: "entry_at t p x \<Longrightarrow> \<not> is_dir x"
  by (induction rule: entry_at.induct) auto

lemma walk_entries_simps:
  "walk_entries [] = []"
  "walk_entries ((root, ds, fs) # items) = map (\<lambda>(n, t). (root @ [n], t)) fs @ walk_entries items"
  "walk_entries (xs @ ys) = walk_entries xs @ walk_entries ys"
  by (simp_all add: walk_entries_def)

lemma walk_files_entries: "(r, x) \<in> set (map (\<lambda>(n, t). (root @ [n], t)) (filter (\<lambda>e. \<not> is_dir (snd e)) es)) \<longleftrightarrow>
        (\<exists>n. r = root @ [n] \<and> (n, x) \<in> set es \<and> \<not> is_dir x)"
  by (auto simp: image_iff)

lemma entry_at_Dir_paths: "(\<exists>q. r = root @ q \<and> entry_at (Dir es) q x) \<longleftrightarrow>
       (\<exists>n. r = root @ [n] \<and> (n, x) \<in> set es \<and> \<not> is_dir x) \<or>
       (\<exists>n ds q. r = root @ n # q \<and> (n, Dir ds) \<in> set es \<and> entry_at (Dir ds) q x)"
  apply (subst entry_at_Dir)
  apply (rule iffI)
   apply (elim exE conjE disjE)
    apply (rule disjI1)
    apply blast
   apply (rule disjI2)
   apply blast
  apply (elim exE conjE disjE)
   apply (rule_tac x="[n]" in exI)
   apply simp
  apply (rule_tac x="n # q" in exI)
  apply simp
  apply blast
  done

lemma walk_dirs_paths: "((\<exists>q. r = (root @ [n]) @ q \<and> entry_at (Dir ds) q x) \<or>
        (\<exists>m ds' q. r = root @ m # q \<and> (m, Dir ds') \<in> set es \<and> entry_at (Dir ds') q x)) \<longleftrightarrow>
     (\<exists>m ds' q. r = root @ m # q \<and> (m, Dir ds') \<in> set ((n, Dir ds) # es) \<and>
        entry_at (Dir ds') q x)"
  apply (rule iffI)
   apply (elim exE conjE disjE)
    apply (rule_tac x=n in exI, rule_tac x=ds in exI, rule_tac x=q in exI)
    apply simp
   apply (rule_tac x=m in exI, rule_tac x=ds' in exI, rule_tac x=q in exI)
   apply simp
  apply (elim exE conjE)
  apply (simp only: set_simps insert_iff prod.inject node.inject)
  apply (elim disjE conjE)
   apply (rule disjI1)
   apply (rule_tac x=q in exI)
   apply simp
  apply (rule disjI2)
  apply (rule_tac x=m in exI, rule_tac x=ds' in exI, rule_tac x=q in exI)
  apply simp
  done

text \<open>The walk lists exactly the entries of the tree that are not directories.\<close>

lemma walk_entries_walk:
  "(r, x) \<in> set (walk_entries (walk root t)) \<longleftrightarrow> (\<exists>q. r = root @ q \<and> entry_at t q x)"
  "(r, x) \<in> set (walk_entries (walk_dirs root es)) \<longleftrightarrow>
     (\<exists>n ds q. r = root @ n # q \<and> (n, Dir ds) \<in> set es \<and> entry_at (Dir ds) q x)"
proof (induction root t and root es arbitrary: r x and r x rule: walk_walk_dirs.induct)
  case (1 root es)
  show ?case
    unfolding entry_at_Dir_paths by (simp only: walk.simps walk_entries_simps set_append Un_iff walk_files_entries 1)
next
  case (2 root c)
  show ?case by (simp add: walk_entries_simps entry_at_File)
next
  case (3 root)
  show ?case by (simp add: walk_entries_simps entry_at_Unreadable)
next
  case (4 root)
  show ?case by (simp add: walk_entries_simps)
next
  case (5 root n ds es)
  have "(r, x) \<in> set (walk_entries (walk_dirs root ((n, Dir ds) # es))) \<longleftrightarrow>
        (\<exists>q. r = (root @ [n]) @ q \<and> entry_at (Dir ds) q x) \<or>
        (\<exists>m ds' q. r = root @ m # q \<and> (m, Dir ds') \<in> set es \<and> entry_at (Dir ds') q x)"
    by (simp only: walk_dirs.simps walk_entries_simps set_append Un_iff 5)
  then show ?case unfolding walk_dirs_paths .
next
  case (6 root n c es)
  show ?case
    by (simp only: walk.simps walk_dirs.simps 6 set_simps insert_iff prod.inject node.distinct simp_thms)
next
  case (7 root n es)
  show ?case
    by (simp only: walk.simps walk_dirs.simps 7 set_simps insert_iff prod.inject node.distinct simp_thms)
qed

text \<open>The two functions of the source are instances of \<open>pack\<close>.\<close>

lemma write_files_pack:
  "write_files root files out = pack_files (Some ''source.properties'') root files out"
  by (induction files arbitrary: out) (auto simp: Let_def split: node.splits)

lemma write_walk_pack:
  "write_walk items out = pack_walk (Some ''source.properties'') items out"
  by (induction items arbitrary: out) (auto simp: write_files_pack split: sum.splits)

lemma package_sdk_source_pack:
  "package_sdk_source directory = pack (Some ''source.properties'') directory"
  by (simp add: package_sdk_source_def pack_def write_walk_pack)

lemma repack_files_pack: "repack_files root files out = pack_files None root files out"
  by (induction files arbitrary: out) (auto simp: Let_def split: node.splits)

lemma repack_walk_pack: "repack_walk items out = pack_walk None items out"
  by (induction items arbitrary: out) (auto simp: repack_files_pack split: sum.splits)

lemma repack_pack: "repack directory = pack None directory"
  by (simp add: repack_def pack_def repack_walk_pack)

lemma kept_simps:
  "kept exclude [] = []"
  "kept exclude ((p, t) # es) =
     (if exclude = Some (relpath p) then kept exclude es else (p, t) # kept exclude es)"
  "kept exclude (xs @ ys) = kept exclude xs @ kept exclude ys"
  by (simp_all add: kept_def)

lemma in_kept:
  "(p, t) \<in> set (kept exclude es) \<longleftrightarrow> (p, t) \<in> set es \<and> exclude \<noteq> Some (relpath p)"
  by (simp add: kept_def)

lemma pack_files_ok:
  assumes "\<And>n t. (n, t) \<in> set files \<Longrightarrow> exclude \<noteq> Some (relpath (root @ [n]))
             \<Longrightarrow> \<exists>c. t = File c"
  shows "pack_files exclude root files out =
     Inr (out @ map (\<lambda>(p, t). (relpath p, content t))
                  (kept exclude (map (\<lambda>(n, t). (root @ [n], t)) files)))"
  using assms
proof (induction files arbitrary: out)
  case Nil
  show ?case by (simp add: kept_simps)
next
  case (Cons f files)
  obtain n t where f: "f = (n, t)" by (cases f)
  have IH: "pack_files exclude root files out' =
     Inr (out' @ map (\<lambda>(p, t). (relpath p, content t))
                  (kept exclude (map (\<lambda>(n, t). (root @ [n], t)) files)))" for out'
    by (rule Cons.IH) (rule Cons.prems, simp_all)
  show ?case
  proof (cases "exclude = Some (relpath (root @ [n]))")
    case True
    have a: "pack_files exclude root (f # files) out = pack_files exclude root files out"
      using True by (simp add: f)
    have b: "kept exclude (map (\<lambda>(n, t). (root @ [n], t)) (f # files)) =
             kept exclude (map (\<lambda>(n, t). (root @ [n], t)) files)"
      using True by (simp add: f kept_simps)
    show ?thesis unfolding a b by (rule IH)
  next
    case False
    have "(n, t) \<in> set (f # files)" by (simp add: f)
    from Cons.prems [OF this False] obtain c where "t = File c" by blast
    with False show ?thesis by (simp add: f IH kept_simps)
  qed
qed

lemma pack_walk_ok:
  assumes "\<And>p t. (p, t) \<in> set (kept exclude (walk_entries items)) \<Longrightarrow> \<exists>c. t = File c"
  shows "pack_walk exclude items out =
     Inr (out @ map (\<lambda>(p, t). (relpath p, content t)) (kept exclude (walk_entries items)))"
  using assms
proof (induction items arbitrary: out)
  case Nil
  show ?case by (simp add: walk_entries_simps kept_simps)
next
  case (Cons item items)
  obtain root ds fs where item: "item = (root, ds, fs)" by (cases item)
  have 1: "\<exists>c. t = File c"
    if "(n, t) \<in> set fs" "exclude \<noteq> Some (relpath (root @ [n]))" for n t
  proof (rule Cons.prems [of "root @ [n]" t])
    from that have "(root @ [n], t) \<in> set (map (\<lambda>(n, t). (root @ [n], t)) fs)"
      by (simp add: image_iff) (rule bexI [of _ "(n, t)"], simp_all)
    with that(2) show "(root @ [n], t) \<in> set (kept exclude (walk_entries (item # items)))"
      by (simp add: item walk_entries_simps in_kept)
  qed
  have 2: "\<exists>c. t = File c" if "(p, t) \<in> set (kept exclude (walk_entries items))" for p t
    by (rule Cons.prems [of p t]) (use that in \<open>simp add: item walk_entries_simps in_kept\<close>)
  show ?case
    by (simp add: item pack_files_ok [of fs exclude root, OF 1] Cons.IH [OF 2] walk_entries_simps
        kept_simps)
qed

text \<open>
  Claim C9. \<^verbatim>\<open>package_sdk_source\<close> is \<open>pack\<close> with the exclusion \<^verbatim>\<open>source.properties\<close>, and
  \<^verbatim>\<open>repack\<close> is \<open>pack\<close> without one. For every exclusion, when every file of the tree
  other than the excluded one can be read, \<open>pack\<close> succeeds and the members of the
  archive are exactly the regular files of the tree, each under its path relative to
  the root, except the one file whose relative path equals the exclusion. No member
  is written for a directory.
\<close>

theorem pack_members:
  assumes "\<forall>p. entry_at directory p Unreadable \<longrightarrow> exclude = Some (relpath p)"
  shows "package_sdk_source directory = pack (Some ''source.properties'') directory \<and>
         repack directory = pack None directory \<and>
         (\<exists>ms. pack exclude directory = Inr ms \<and>
           (\<forall>name c. (name, c) \<in> set ms \<longleftrightarrow>
              (\<exists>p. entry_at directory p (File c) \<and> name = relpath p \<and>
                   exclude \<noteq> Some name)))"
proof -
  let ?es = "walk_entries (walk [] directory)"
  have entries: "(q, x) \<in> set ?es \<longleftrightarrow> entry_at directory q x" for q x
    using walk_entries_walk(1) [of q x "[]" directory] by simp
  have files: "\<exists>c. t = File c" if "(p, t) \<in> set (kept exclude ?es)" for p t
  proof -
    from that have e: "entry_at directory p t" and r: "exclude \<noteq> Some (relpath p)"
      by (simp_all add: in_kept entries)
    from e have "\<not> is_dir t" by (rule entry_at_not_dir)
    with e r assms show ?thesis by (cases t) auto
  qed
  let ?ms = "map (\<lambda>(p, t). (relpath p, content t)) (kept exclude ?es)"
  have ok: "pack exclude directory = Inr ?ms"
    using pack_walk_ok [of exclude "walk [] directory" "[]", OF files]
    by (simp add: pack_def)
  have "(name, c) \<in> set ?ms \<longleftrightarrow>
          (\<exists>p. entry_at directory p (File c) \<and> name = relpath p \<and> exclude \<noteq> Some name)"
    for name c
  proof
    assume "(name, c) \<in> set ?ms"
    then obtain p t where pt: "(p, t) \<in> set (kept exclude ?es)"
      and n: "name = relpath p" and c: "c = content t"
      by (auto simp: image_iff)
    from files [OF pt] obtain c' where t: "t = File c'" by blast
    from pt have "entry_at directory p t" "exclude \<noteq> Some (relpath p)"
      by (simp_all add: in_kept entries)
    with n c t show "\<exists>p. entry_at directory p (File c) \<and> name = relpath p \<and>
        exclude \<noteq> Some name"
      by auto
  next
    assume "\<exists>p. entry_at directory p (File c) \<and> name = relpath p \<and> exclude \<noteq> Some name"
    then obtain p where p: "entry_at directory p (File c)" "name = relpath p"
      "exclude \<noteq> Some name" by blast
    then have "(p, File c) \<in> set (kept exclude ?es)"
      by (simp add: in_kept entries)
    then have "(\<lambda>(p, t). (relpath p, content t)) (p, File c) \<in> set ?ms"
      unfolding set_map by (rule imageI)
    with p(2) show "(name, c) \<in> set ?ms" by simp
  qed
  with ok package_sdk_source_pack repack_pack show ?thesis by blast
qed

text \<open>
  The theorem at the tree of \<^verbatim>\<open>a.txt\<close> and \<^verbatim>\<open>sub/b.txt\<close> with the exclusion \<^verbatim>\<open>a.txt\<close>: the
  only member is \<^verbatim>\<open>sub/b.txt\<close>.
\<close>

theorem pack_members_witness:
  "pack (Some ''a.txt'') (Dir [(''a.txt'', File ''A''), (''sub'', Dir [(''b.txt'', File ''B'')])])
     = Inr [(''sub/b.txt'', ''B'')] \<and>
   (\<exists>ms. pack (Some ''a.txt'')
           (Dir [(''a.txt'', File ''A''), (''sub'', Dir [(''b.txt'', File ''B'')])]) = Inr ms \<and>
         (''sub/b.txt'', ''B'') \<in> set ms \<and> (''a.txt'', ''A'') \<notin> set ms)"
proof -
  let ?T = "Dir [(''a.txt'', File ''A''), (''sub'', Dir [(''b.txt'', File ''B'')])]"
  have inner: "\<not> entry_at (Dir [(''b.txt'', File ''B'')]) p Unreadable" for p
  proof
    assume "entry_at (Dir [(''b.txt'', File ''B'')]) p Unreadable"
    then show False by (cases rule: entry_at.cases) simp_all
  qed
  have h: "\<forall>p. entry_at ?T p Unreadable \<longrightarrow> Some ''a.txt'' = Some (relpath p)"
  proof (intro allI impI)
    fix p
    assume "entry_at ?T p Unreadable"
    then show "Some ''a.txt'' = Some (relpath p)"
      using inner by (cases rule: entry_at.cases) auto
  qed
  have e: "entry_at ?T [''sub'', ''b.txt''] (File ''B'')"
    by (rule entry_at.below [of _ "[(''b.txt'', File ''B'')]"], simp, rule entry_at.here, simp_all)
  have r: "relpath [''sub'', ''b.txt''] = ''sub/b.txt''" by simp
  from pack_members [OF h] obtain ms where
    ms: "pack (Some ''a.txt'') ?T = Inr ms"
    "\<And>name c. (name, c) \<in> set ms \<longleftrightarrow>
       (\<exists>p. entry_at ?T p (File c) \<and> name = relpath p \<and> Some ''a.txt'' \<noteq> Some name)"
    by blast
  have 1: "(''sub/b.txt'', ''B'') \<in> set ms"
    unfolding ms(2) using e r by (intro exI [of _ "[''sub'', ''b.txt'']"]) simp
  have 2: "(''a.txt'', ''A'') \<notin> set ms"
    unfolding ms(2) by simp
  have v: "pack (Some ''a.txt'') ?T = Inr [(''sub/b.txt'', ''B'')]" by code_simp
  from ms(1) 1 2 v show ?thesis by blast
qed

text \<open>
  The same tree packed by the two functions of the source and without an exclusion
  keeps both files; \<^verbatim>\<open>package_sdk_source\<close> leaves out \<^verbatim>\<open>source.properties\<close> at the root
  only.
\<close>

lemma pack_examples:
  "package_sdk_source (Dir [(''a.txt'', File ''A''), (''sub'', Dir [(''b.txt'', File ''B'')])])
     = Inr [(''a.txt'', ''A''), (''sub/b.txt'', ''B'')]"
  "repack (Dir [(''a.txt'', File ''A''), (''sub'', Dir [(''b.txt'', File ''B'')])])
     = Inr [(''a.txt'', ''A''), (''sub/b.txt'', ''B'')]"
  "pack None (Dir [(''a.txt'', File ''A''), (''sub'', Dir [(''b.txt'', File ''B'')])])
     = Inr [(''a.txt'', ''A''), (''sub/b.txt'', ''B'')]"
  "package_sdk_source
     (Dir [(''source.properties'', File ''P''), (''a.txt'', File ''A''),
           (''sub'', Dir [(''source.properties'', File ''Q'')])])
     = Inr [(''a.txt'', ''A''), (''sub/source.properties'', ''Q'')]"
  by code_simp+

section \<open>Properties of generate\_plugins\<close>

lemma digit_char_not_slash: "d < 10 \<Longrightarrow> digit_char d \<noteq> CHR ''/''"
proof
  assume d: "d < 10" and "digit_char d = CHR ''/''"
  then have "(of_char (char_of (48 + d)) :: nat) = of_char (CHR ''/'')"
    by (simp add: digit_char_def)
  with d show False by (simp add: of_char_of)
qed

lemma str_nat_last: "str_nat n \<noteq> [] \<and> last (str_nat n) = digit_char (n mod 10)"
  by (subst (1 2) str_nat.simps) simp

lemma path_join_level: "path_join (str_nat l) ''sources.zip'' = level_name l"
proof -
  have ne: "str_nat l \<noteq> []" and la: "last (str_nat l) = digit_char (l mod 10)"
    using str_nat_last by blast+
  have "last (str_nat l) \<noteq> CHR ''/''"
    unfolding la by (rule digit_char_not_slash) simp
  with ne have "\<not> endswith (str_nat l) ''/''"
    by (cases "str_nat l" rule: rev_cases) (auto simp: endswith_def)
  with ne show ?thesis
    by (simp add: path_join_def level_name_def startswith_def)
qed

lemma asynchronous_packer_temp:
  "fst ` set (temp_files (asynchronous_packer fs tn a (l, p))) =
     insert (tn l) (fst ` set (temp_files a))"
  by (simp add: asynchronous_packer_def dom_update split: sum.splits)

lemma asynchronous_packer_archives:
  "map_of (sdk_archives (asynchronous_packer fs tn a (l, p))) k =
     (if k = l \<and> packs fs p then Some (tn l) else map_of (sdk_archives a) k)"
  by (simp add: asynchronous_packer_def packs_def update_conv' split: sum.splits)

lemma asynchronous_packer_output:
  "output_jar (asynchronous_packer fs tn a t) = output_jar a"
  by (cases t) (simp add: asynchronous_packer_def split: sum.splits)

lemma run_pool_snoc:
  "run_pool fs tn (sched @ [t]) a = asynchronous_packer fs tn (run_pool fs tn sched a) t"
  by (simp add: run_pool_def)

lemma run_pool_temp:
  "fst ` set (temp_files (run_pool fs tn sched a)) =
     fst ` set (temp_files a) \<union> tn ` fst ` set sched"
proof (induction sched rule: rev_induct)
  case Nil
  show ?case by (simp add: run_pool_def)
next
  case (snoc t sched)
  obtain l p where t: "t = (l, p)" by (cases t)
  show ?case
    unfolding run_pool_snoc t asynchronous_packer_temp snoc.IH by auto
qed

lemma run_pool_archives:
  "map_of (sdk_archives (run_pool fs tn sched a)) k =
     (if \<exists>p. (k, p) \<in> set sched \<and> packs fs p then Some (tn k)
      else map_of (sdk_archives a) k)"
proof (induction sched rule: rev_induct)
  case Nil
  show ?case by (simp add: run_pool_def)
next
  case (snoc t sched)
  obtain l p where t: "t = (l, p)" by (cases t)
  show ?case
    unfolding run_pool_snoc t asynchronous_packer_archives snoc.IH by auto
qed

lemma run_pool_output: "output_jar (run_pool fs tn sched a) = output_jar a"
  by (induction sched rule: rev_induct)
     (simp_all add: run_pool_def asynchronous_packer_output)

lemma write_assets_names:
  "write_assets fs assets items jar0 = Inr jar \<Longrightarrow> map fst jar = map fst jar0 @ items"
  by (induction items arbitrary: jar0) (auto split: option.splits)

lemma write_static_names:
  assumes "write_static fs assets variables = Some (Inr jar)"
  shows "map fst jar = static_names"
proof -
  obtain jar1 where 1: "write_assets fs assets
      [''about.html'', ''about.ini'', ''about.mappings'', ''android_32x32.png''] [] = Inr jar1"
    using assms by (cases "write_assets fs assets
      [''about.html'', ''about.ini'', ''about.mappings'', ''android_32x32.png''] []")
      (simp_all add: write_static_def)
  have j: "path_join ''META-INF'' ''MANIFEST.MF'' = ''META-INF/MANIFEST.MF''"
    "path_join ''icons'' ''android_32x32.png'' = ''icons/android_32x32.png''"
    by code_simp+
  from assms show ?thesis
    unfolding write_static_def 1 j
    by (auto simp: static_names_def write_assets_names [OF 1]
        split: option.splits sum.splits)
qed

lemma write_sdks_append:
  "write_sdks a (xs @ ys) =
     (case write_sdks a xs of Inl r \<Rightarrow> Inl r | Inr a' \<Rightarrow> write_sdks a' ys)"
  by (induction xs arbitrary: a) (auto split: option.splits)

lemma delete_dom: "fst ` set (AList.delete k al) = fst ` set al - {k}"
  by (induction al) auto

lemma write_sdks_ok:
  assumes "distinct ls" and "inj_on tn (set ls)"
    and "\<And>l. l \<in> set ls \<Longrightarrow> map_of (sdk_archives a) l = Some (tn l)"
    and "\<And>l. l \<in> set ls \<Longrightarrow> tn l \<in> fst ` set (temp_files a)"
  shows "\<exists>a'. write_sdks a ls = Inr a' \<and>
           map fst (output_jar a') = map fst (output_jar a) @ map level_name ls \<and>
           fst ` set (temp_files a') = fst ` set (temp_files a) - tn ` set ls \<and>
           sdk_archives a' = sdk_archives a"
  using assms
proof (induction ls arbitrary: a)
  case Nil
  show ?case by simp
next
  case (Cons l ls)
  have arch: "map_of (sdk_archives a) l = Some (tn l)" by (rule Cons.prems(3)) simp
  have "tn l \<in> fst ` set (temp_files a)" by (rule Cons.prems(4)) simp
  then obtain content where temp: "map_of (temp_files a) (tn l) = Some content"
    by (cases "map_of (temp_files a) (tn l)") (auto simp: map_of_eq_None_iff)
  define a1 where "a1 = a\<lparr>output_jar := output_jar a @ [(path_join (str_nat l) ''sources.zip'', content)],
                   temp_files := AList.delete (tn l) (temp_files a)\<rparr>"
  have step: "write_sdks a (l # ls) = write_sdks a1 ls"
    by (simp add: arch temp a1_def)
  have d: "distinct ls" and i: "inj_on tn (set ls)" and nl: "l \<notin> set ls"
    using Cons.prems(1,2) by (simp_all add: inj_on_def)
  have other: "tn l' \<noteq> tn l" if "l' \<in> set ls" for l'
    using Cons.prems(2) that nl by (auto simp: inj_on_def)
  have 3: "map_of (sdk_archives a1) l' = Some (tn l')" if "l' \<in> set ls" for l'
    using Cons.prems(3) [of l'] that by (simp add: a1_def)
  have 4: "tn l' \<in> fst ` set (temp_files a1)" if "l' \<in> set ls" for l'
    using Cons.prems(4) [of l'] other [OF that] that by (simp add: a1_def delete_dom)
  from Cons.IH [OF d i 3 4] obtain a' where a':
    "write_sdks a1 ls = Inr a'"
    "map fst (output_jar a') = map fst (output_jar a1) @ map level_name ls"
    "fst ` set (temp_files a') = fst ` set (temp_files a1) - tn ` set ls"
    "sdk_archives a' = sdk_archives a1" by blast
  have "map fst (output_jar a') = map fst (output_jar a) @ map level_name (l # ls)"
    by (simp add: a'(2) a1_def path_join_level)
  moreover have "fst ` set (temp_files a') = fst ` set (temp_files a) - tn ` set (l # ls)"
    unfolding a'(3) by (auto simp: a1_def delete_dom)
  moreover have "sdk_archives a' = sdk_archives a" by (simp add: a'(4) a1_def)
  ultimately show ?case using step a'(1) by simp
qed

lemma sorted_split:
  fixes f :: nat
  assumes "sorted xs" and "distinct xs" and "f \<in> set xs"
  shows "xs = filter (\<lambda>x. x < f) xs @ f # filter (\<lambda>x. f < x) xs"
  using assms
proof (induction xs)
  case Nil
  then show ?case by simp
next
  case (Cons x xs)
  show ?case
  proof (cases "x = f")
    case True
    with Cons.prems have "\<forall>y \<in> set xs. f < y" by (auto simp: le_less)
    then have "filter (\<lambda>x. x < f) xs = []" "filter (\<lambda>x. f < x) xs = xs"
      by (auto simp: filter_empty_conv filter_id_conv)
    with True show ?thesis by simp
  next
    case False
    with Cons.prems have "f \<in> set xs" "x < f" by (auto simp: le_less)
    with Cons show ?thesis by simp
  qed
qed

lemma packs_unique:
  assumes "distinct (map fst sdks)" and "(l, p) \<in> set sdks" and "(l, q) \<in> set sdks"
  shows "p = q"
  using assms by (meson eq_key_imp_eq_value)

text \<open>
  Claim C1. In a run with a positive number of workers in which the pool runs the
  submitted tasks, every task succeeds and the static members are written, the
  members of the final archive after the static ones are \<^verbatim>\<open><level>/sources.zip\<close> in
  ascending order of the API levels. The list is a function of the set of levels of
  the catalog: it is the same for every number of workers, for every order in which
  the pool finishes the tasks and for every choice of names for the temporary files.
  All temporary files are removed.
\<close>

theorem plugins_members_sorted:
  assumes "0 < threads"
    and "set schedule = set sdks"
    and "distinct (map fst sdks)"
    and "inj_on temp_name (fst ` set sdks)"
    and "version_of variables = Inr version"
    and "write_static fs (path_join (path_join base ''assets'') ''plugins'') variables
           = Some (Inr jar)"
    and "\<And>l p. (l, p) \<in> set sdks \<Longrightarrow> packs fs p"
  shows "\<exists>a. generate_plugins fs temp_name schedule base variables sdks threads = Some (Inr a) \<and>
           map fst (output_jar a) =
             static_names @ map level_name (sorted_list_of_set (fst ` set sdks)) \<and>
           temp_files a = []"
proof -
  define a0 where "a0 = (run_pool fs temp_name schedule assembly_init)\<lparr>output_jar := jar\<rparr>"
  let ?ls = "sort (map fst sdks)"
  have ls: "set ?ls = fst ` set sdks" "distinct ?ls"
    using assms(3) by simp_all
  have inj: "inj_on temp_name (set ?ls)" using assms(4) by (simp add: ls)
  have arch: "map_of (sdk_archives a0) l = Some (temp_name l)" if "l \<in> set ?ls" for l
  proof -
    from that obtain p where "(l, p) \<in> set sdks" by (auto simp: ls)
    with assms(2,7) have "\<exists>p. (l, p) \<in> set schedule \<and> packs fs p" by blast
    then show ?thesis by (simp add: a0_def run_pool_archives)
  qed
  have temps: "fst ` set (temp_files a0) = temp_name ` fst ` set sdks"
    by (simp add: a0_def run_pool_temp assms(2) assembly_init_def)
  have temp: "temp_name l \<in> fst ` set (temp_files a0)" if "l \<in> set ?ls" for l
    using that unfolding temps ls by (rule imageI)
  from write_sdks_ok [OF ls(2) inj arch temp] obtain a where a:
    "write_sdks a0 ?ls = Inr a"
    "map fst (output_jar a) = map fst (output_jar a0) @ map level_name ?ls"
    "fst ` set (temp_files a) = fst ` set (temp_files a0) - temp_name ` set ?ls" by blast
  have run: "generate_plugins fs temp_name schedule base variables sdks threads = Some (Inr a)"
    using assms(1) by (simp add: generate_plugins_def Let_def assms(5,6) a(1) a0_def [symmetric])
  have sorted: "?ls = sorted_list_of_set (fst ` set sdks)"
  proof -
    have "sorted_list_of_set (set (map fst sdks)) = sort (remdups (map fst sdks))"
      by (rule sorted_list_of_set_sort_remdups)
    with assms(3) show ?thesis by (simp add: distinct_remdups_id)
  qed
  have names: "map fst (output_jar a) =
      static_names @ map level_name (sorted_list_of_set (fst ` set sdks))"
    unfolding a(2) sorted [symmetric] by (simp add: a0_def write_static_names [OF assms(6)])
  have "fst ` set (temp_files a) = {}" unfolding a(3) temps ls by simp
  then have "temp_files a = []" by simp
  with run names show ?thesis by blast
qed

text \<open>
  The theorem at a catalog of the levels 1 and 3 with two workers that finish the
  task of level 3 first.
\<close>

theorem plugins_members_sorted_witness:
  "\<exists>a. generate_plugins example_site example_temp_name [(3, ''src3''), (1, ''src1'')] ''base''
          [(''VERSION'', PyStr ''1.0'')] [(1, ''src1''), (3, ''src3'')] 2 = Some (Inr a) \<and>
        map fst (output_jar a) = static_names @ [''1/sources.zip'', ''3/sources.zip''] \<and>
        temp_files a = []"
proof -
  have h1: "(0::int) < 2" by simp
  have h2: "set [(3::nat, ''src3''), (1, ''src1'')] = set [(1, ''src1''), (3, ''src3'')]"
    by auto
  have h3: "distinct (map fst [(1::nat, ''src1''), (3, ''src3'')])" by simp
  have ne: "example_temp_name 1 \<noteq> example_temp_name 3" by code_simp
  have h4: "inj_on example_temp_name (fst ` set [(1::nat, ''src1''), (3, ''src3'')])"
    using ne by simp
  have h5: "version_of [(''VERSION'', PyStr ''1.0'')] = Inr ''1.0''" by code_simp
  have h6: "write_static example_site (path_join (path_join ''base'' ''assets'') ''plugins'')
              [(''VERSION'', PyStr ''1.0'')]
            = Some (Inr [(''about.html'', Text ''<html/>''),
             (''about.ini'', Text ''ini''),
             (''about.mappings'', Text ''0=1''),
             (''android_32x32.png'', Text ''PNG''),
             (''about.properties'', Text ''v=1.0''),
             (''META-INF/MANIFEST.MF'', Text ''Bundle-Version: 1.0''),
             (''icons/android_32x32.png'', Text ''PNG'')])" by code_simp
  have p1: "packs example_site ''src1''" by code_simp
  have p3: "packs example_site ''src3''" by code_simp
  have h7: "packs example_site p" if "(l, p) \<in> set [(1::nat, ''src1''), (3, ''src3'')]" for l p
    using that p1 p3 by auto
  have names: "map level_name (sorted_list_of_set (fst ` set [(1::nat, ''src1''), (3, ''src3'')]))
      = [''1/sources.zip'', ''3/sources.zip'']" by code_simp
  have "\<exists>a. generate_plugins example_site example_temp_name [(3, ''src3''), (1, ''src1'')] ''base''
          [(''VERSION'', PyStr ''1.0'')] [(1, ''src1''), (3, ''src3'')] 2 = Some (Inr a) \<and>
        map fst (output_jar a) = static_names @
          map level_name (sorted_list_of_set (fst ` set [(1::nat, ''src1''), (3, ''src3'')])) \<and>
        temp_files a = []"
    by (rule plugins_members_sorted [OF h1 h2 h3 h4 h5 h6]) (rule h7)
  then show ?thesis unfolding names .
qed

text \<open>
  Claim C2, as amended. Nothing in \<^verbatim>\<open>generate_plugins\<close> reads the result of a task, so a
  task that raised is noticed only when the final loop looks its level up. When \<open>f\<close> is
  the lowest level whose task failed, the run ends with the \<^verbatim>\<open>KeyError\<close> of \<open>f\<close>; the
  archive then holds the static members and the members of the levels below \<open>f\<close>, and
  no member for \<open>f\<close>; the temporary files of the levels below \<open>f\<close> are removed, those of
  \<open>f\<close> and of every higher level stay on disk.
\<close>

theorem plugins_failed_task:
  assumes "0 < threads"
    and "set schedule = set sdks"
    and "distinct (map fst sdks)"
    and "inj_on temp_name (fst ` set sdks)"
    and "version_of variables = Inr version"
    and "write_static fs (path_join (path_join base ''assets'') ''plugins'') variables
           = Some (Inr jar)"
    and "(f, pf) \<in> set sdks" and "\<not> packs fs pf"
    and "\<And>l p. (l, p) \<in> set sdks \<Longrightarrow> l < f \<Longrightarrow> packs fs p"
  shows "\<exists>a. generate_plugins fs temp_name schedule base variables sdks threads
               = Some (Inl (KeyError (str_nat f), a)) \<and>
           map fst (output_jar a) =
             static_names @ map level_name (filter (\<lambda>l. l < f) (sort (map fst sdks))) \<and>
           fst ` set (temp_files a) = temp_name ` {l \<in> fst ` set sdks. f \<le> l}"
proof -
  define a0 where "a0 = (run_pool fs temp_name schedule assembly_init)\<lparr>output_jar := jar\<rparr>"
  let ?ls = "sort (map fst sdks)"
  let ?xs = "filter (\<lambda>l. l < f) ?ls"
  let ?ys = "filter (\<lambda>l. f < l) ?ls"
  have ls: "set ?ls = fst ` set sdks" "distinct ?ls" "sorted ?ls"
    using assms(3) by simp_all
  have "f \<in> set ?ls" using assms(7) by (force simp: ls)
  from sorted_split [OF ls(3,2) this] have split: "?ls = ?xs @ f # ?ys" .
  have xs: "distinct ?xs" "set ?xs \<subseteq> fst ` set sdks" using ls by auto
  have inj: "inj_on temp_name (set ?xs)"
    using assms(4) xs(2) by (rule inj_on_subset)
  have arch: "map_of (sdk_archives a0) l = Some (temp_name l)" if "l \<in> set ?xs" for l
  proof -
    from that have "l < f" and "l \<in> fst ` set sdks" using ls by auto
    then obtain p where "(l, p) \<in> set sdks" by auto
    with assms(2,9) \<open>l < f\<close> have "\<exists>p. (l, p) \<in> set schedule \<and> packs fs p" by blast
    then show ?thesis by (simp add: a0_def run_pool_archives)
  qed
  have temps: "fst ` set (temp_files a0) = temp_name ` fst ` set sdks"
    by (simp add: a0_def run_pool_temp assms(2) assembly_init_def)
  have temp: "temp_name l \<in> fst ` set (temp_files a0)" if "l \<in> set ?xs" for l
    using that xs(2) unfolding temps by blast
  from write_sdks_ok [OF xs(1) inj arch temp] obtain a where a:
    "write_sdks a0 ?xs = Inr a"
    "map fst (output_jar a) = map fst (output_jar a0) @ map level_name ?xs"
    "fst ` set (temp_files a) = fst ` set (temp_files a0) - temp_name ` set ?xs"
    "sdk_archives a = sdk_archives a0" by blast
  have "\<not> (\<exists>p. (f, p) \<in> set schedule \<and> packs fs p)"
    using packs_unique [OF assms(3) assms(7)] assms(2,8) by blast
  then have "map_of (sdk_archives a) f = None"
    by (simp add: a(4) a0_def run_pool_archives assembly_init_def)
  then have fail: "write_sdks a0 ?ls = Inl (KeyError (str_nat f), a)"
    by (subst split) (simp add: write_sdks_append a(1))
  have run: "generate_plugins fs temp_name schedule base variables sdks threads
      = Some (Inl (KeyError (str_nat f), a))"
    using assms(1) by (simp add: generate_plugins_def Let_def assms(5,6) fail a0_def [symmetric])
  have names: "map fst (output_jar a) = static_names @ map level_name ?xs"
    unfolding a(2) by (simp add: a0_def write_static_names [OF assms(6)])
  have "fst ` set (temp_files a) = temp_name ` (fst ` set sdks - set ?xs)"
    unfolding a(3) temps using assms(4) xs(2)
    by (simp add: inj_on_image_set_diff [of temp_name "fst ` set sdks"])
  also have "fst ` set sdks - set ?xs = {l \<in> fst ` set sdks. f \<le> l}"
    using ls(1) by auto
  finally show ?thesis using run names by blast
qed

text \<open>
  The theorem at a catalog of the levels 1, 2 and 3 in which the tree of level 2 holds
  a file that cannot be read.
\<close>

theorem plugins_failed_task_witness:
  "\<exists>a. generate_plugins example_site example_temp_name
          [(3, ''src3''), (2, ''src2''), (1, ''src1'')] ''base''
          [(''VERSION'', PyStr ''1.0'')] [(1, ''src1''), (2, ''src2''), (3, ''src3'')] 2
          = Some (Inl (KeyError ''2'', a)) \<and>
        map fst (output_jar a) = static_names @ [''1/sources.zip''] \<and>
        fst ` set (temp_files a) = {''/tmp/tmp2'', ''/tmp/tmp3''}"
proof -
  let ?sdks = "[(1::nat, ''src1''), (2, ''src2''), (3, ''src3'')]"
  have h1: "(0::int) < 2" by simp
  have h2: "set [(3::nat, ''src3''), (2, ''src2''), (1, ''src1'')] = set ?sdks"
    by auto
  have h3: "distinct (map fst ?sdks)" by simp
  have ne: "example_temp_name 1 \<noteq> example_temp_name 2"
    "example_temp_name 1 \<noteq> example_temp_name 3"
    "example_temp_name 2 \<noteq> example_temp_name 3" by code_simp+
  have h4: "inj_on example_temp_name (fst ` set ?sdks)"
    using ne by simp
  have h5: "version_of [(''VERSION'', PyStr ''1.0'')] = Inr ''1.0''" by code_simp
  have h6: "write_static example_site (path_join (path_join ''base'' ''assets'') ''plugins'')
              [(''VERSION'', PyStr ''1.0'')]
            = Some (Inr [(''about.html'', Text ''<html/>''),
             (''about.ini'', Text ''ini''),
             (''about.mappings'', Text ''0=1''),
             (''android_32x32.png'', Text ''PNG''),
             (''about.properties'', Text ''v=1.0''),
             (''META-INF/MANIFEST.MF'', Text ''Bundle-Version: 1.0''),
             (''icons/android_32x32.png'', Text ''PNG'')])" by code_simp
  have h7: "(2, ''src2'') \<in> set ?sdks" by simp
  have h8: "\<not> packs example_site ''src2''" by code_simp
  have p1: "packs example_site ''src1''" by code_simp
  have h9: "packs example_site p" if "(l, p) \<in> set ?sdks" "l < 2" for l p
    using that p1 by auto
  have names: "map level_name (filter (\<lambda>l. l < 2) (sort (map fst ?sdks))) = [''1/sources.zip'']"
    by code_simp
  have k: "str_nat 2 = ''2''" by code_simp
  have t: "example_temp_name ` {l \<in> fst ` set ?sdks. 2 \<le> l} = {''/tmp/tmp2'', ''/tmp/tmp3''}"
  proof -
    have "{l \<in> fst ` set ?sdks. 2 \<le> l} = {2, 3}" by auto
    moreover have "example_temp_name 2 = ''/tmp/tmp2''" "example_temp_name 3 = ''/tmp/tmp3''"
      by code_simp+
    ultimately show ?thesis by simp
  qed
  have "\<exists>a. generate_plugins example_site example_temp_name
          [(3, ''src3''), (2, ''src2''), (1, ''src1'')] ''base''
          [(''VERSION'', PyStr ''1.0'')] ?sdks 2
          = Some (Inl (KeyError (str_nat 2), a)) \<and>
        map fst (output_jar a) =
          static_names @ map level_name (filter (\<lambda>l. l < 2) (sort (map fst ?sdks))) \<and>
        fst ` set (temp_files a) = example_temp_name ` {l \<in> fst ` set ?sdks. 2 \<le> l}"
    by (rule plugins_failed_task [OF h1 h2 h3 h4 h5 h6 h7 h8]) (rule h9)
  then show ?thesis unfolding names k t .
qed

text \<open>
  Claim C2 as it is written says that a failed task leaves no partial archive and no
  temporary file. In the run above the archive holds the static members and
  \<^verbatim>\<open>1/sources.zip\<close>, and the temporary files of the levels 2 and 3 remain.
\<close>

theorem plugins_failed_task_counterexample:
  "generate_plugins example_site example_temp_name
     [(3, ''src3''), (2, ''src2''), (1, ''src1'')] ''base''
     [(''VERSION'', PyStr ''1.0'')] [(1, ''src1''), (2, ''src2''), (3, ''src3'')] 2
   = Some (Inl (KeyError ''2'',
        \<lparr>sdk_archives = [(3, ''/tmp/tmp3''), (1, ''/tmp/tmp1'')],
           temp_files =
             [(''/tmp/tmp3'', Archive [(''c.java'', ''C'')]),
              (''/tmp/tmp2'', PartialArchive)],
           output_jar =
             [(''about.html'', Text ''<html/>''),
              (''about.ini'', Text ''ini''),
              (''about.mappings'', Text ''0=1''),
              (''android_32x32.png'', Text ''PNG''),
              (''about.properties'', Text ''v=1.0''),
              (''META-INF/MANIFEST.MF'', Text ''Bundle-Version: 1.0''),
              (''icons/android_32x32.png'', Text ''PNG''),
              (''1/sources.zip'', Archive [(''a.java'', ''A'')])]\<rparr>))"
  by code_simp

end
